theory Spec2Isabelle
  imports Complex_Main "HOL-Library.Word" "HOL-Library.Multiset"
begin

section \<open>Who Stole the Sun: scene, motion, collision, camera and dialogue core\<close>

text \<open>
  The development follows the last iteration of the game source (the one with
  \<^verbatim>\<open>MotionMaster\<close>, the binary scene file and the game-state stack).

  Numbers. A C \<^verbatim>\<open>float\<close> is modelled in two ways, and the scalar type of the
  geometric records is a type parameter \<open>'f\<close> for that reason:
  \<^item> in the geometry, motion, camera and dialogue code it is a \<open>real\<close>: every
    comparison and every arithmetic operation is the exact one, so rounding, infinities
    and NaN are outside the model;
  \<^item> in the scene codec it is the 32-bit pattern of the float (\<open>32 word\<close>): the codec
    only moves the four bytes and never computes with them.
  A C \<^verbatim>\<open>int\<close> is an \<open>int\<close>; where it is written to a file its 32-bit
  two's-complement pattern is taken.
\<close>

subsection \<open>Vectors\<close>

record 'f Vector2 =
  vx :: 'f
  vy :: 'f

definition Vector2Zero :: "real Vector2" where
  "Vector2Zero = \<lparr>vx = 0, vy = 0\<rparr>"

definition Vector2Add :: "real Vector2 \<Rightarrow> real Vector2 \<Rightarrow> real Vector2" where
  "Vector2Add a b = \<lparr>vx = vx a + vx b, vy = vy a + vy b\<rparr>"

definition Vector2Subtract :: "real Vector2 \<Rightarrow> real Vector2 \<Rightarrow> real Vector2" where
  "Vector2Subtract a b = \<lparr>vx = vx a - vx b, vy = vy a - vy b\<rparr>"

definition Vector2Distance :: "real Vector2 \<Rightarrow> real Vector2 \<Rightarrow> real" where
  "Vector2Distance a b = sqrt ((vx a - vx b) * (vx a - vx b) + (vy a - vy b) * (vy a - vy b))"

definition Lerp :: "real \<Rightarrow> real \<Rightarrow> real \<Rightarrow> real" where
  "Lerp start end amount = start + amount * (end - start)"

subsection \<open>MotionMaster\<close>

text \<open>
  The fields of \<^verbatim>\<open>STRUCT(MotionMaster)\<close>. \<^verbatim>\<open>FRAME_TIME\<close> is a constant of the
  core header; the functions take it as the parameter \<open>dt\<close>.

  \<open>arrivalTime\<close> holds the quotient distance / speed, and the speed can be zero: a
  zero-filled MotionMaster (after \<^verbatim>\<open>Destroy\<close>, or a fresh object of the editor) has
  speed 0, and the float quotient of a positive distance by zero is plus infinity. The
  field therefore has the finite values and plus infinity.
\<close>

datatype 'f Quotient = Finite 'f | PlusInfinity

record 'f MotionMaster =
  currentPoint :: "'f Vector2"
  isMoving :: bool
  startPoint :: "'f Vector2"
  endPoint :: "'f Vector2"
  motionTime :: 'f
  arrivalTime :: "'f Quotient"
  speed :: 'f

text \<open>
  The float operations on an arrival time. \<open>quotient a b\<close> is \<open>a / b\<close> for the
  positive \<open>a\<close> it is called with (the distance between two different points);
  \<open>at_most t a\<close> is \<open>t <= a\<close>; \<open>fraction t a\<close> is \<open>t / a\<close>, which is zero for an
  infinite \<open>a\<close> and not a finite number for \<open>a\<close> = 0 (\<open>None\<close>).
\<close>

definition quotient :: "real \<Rightarrow> real \<Rightarrow> real Quotient" where
  "quotient a b = (if b = 0 then PlusInfinity else Finite (a / b))"

definition at_most :: "real \<Rightarrow> real Quotient \<Rightarrow> bool" where
  "at_most t a = (case a of Finite r \<Rightarrow> t \<le> r | PlusInfinity \<Rightarrow> True)"

definition fraction :: "real \<Rightarrow> real Quotient \<Rightarrow> real option" where
  "fraction t a =
     (case a of
        PlusInfinity \<Rightarrow> Some 0
      | Finite r \<Rightarrow> (if r = 0 then None else Some (t / r)))"

definition MM_MoveToPoint :: "real Vector2 \<Rightarrow> real Vector2 \<Rightarrow> real MotionMaster \<Rightarrow> real MotionMaster" where
  "MM_MoveToPoint start end m =
     (if start = end then m
      else m\<lparr>startPoint := start, endPoint := end,
             arrivalTime := quotient (Vector2Distance start end) (speed m),
             isMoving := True\<rparr>)"

definition MM_Reset :: "real MotionMaster \<Rightarrow> real MotionMaster" where
  "MM_Reset m = m\<lparr>endPoint := Vector2Zero, startPoint := Vector2Zero, isMoving := False,
                  motionTime := 0, arrivalTime := Finite 0, speed := 10\<rparr>"

text \<open>
  \<^verbatim>\<open>MotionMaster::Update\<close>. The result is \<open>None\<close> where the interpolation divides
  by an arrival time of zero, so that the new point is not a pair of finite numbers; no
  MotionMaster that \<^verbatim>\<open>MoveToPoint\<close> has set moving is in that state.
\<close>

definition MM_Update :: "real \<Rightarrow> real MotionMaster \<Rightarrow> real MotionMaster option" where
  "MM_Update dt m =
     (if \<not> isMoving m then Some m
      else if at_most (motionTime m + dt * speed m) (arrivalTime m) then
        (let t = motionTime m + dt * speed m in
         case fraction t (arrivalTime m) of
           None \<Rightarrow> None
         | Some amount \<Rightarrow>
             Some (m\<lparr>motionTime := t,
                     currentPoint := \<lparr>vx = Lerp (vx (startPoint m)) (vx (endPoint m)) amount,
                                      vy = Lerp (vy (startPoint m)) (vy (endPoint m)) amount\<rparr>\<rparr>))
      else Some (MM_Reset (m\<lparr>currentPoint := endPoint m\<rparr>)))"

text \<open>\<open>k\<close> frames: one \<^verbatim>\<open>Update\<close> each.\<close>

fun MM_Updates :: "real \<Rightarrow> nat \<Rightarrow> real MotionMaster \<Rightarrow> real MotionMaster option" where
  "MM_Updates dt 0 m = Some m"
| "MM_Updates dt (Suc k) m =
     (case MM_Updates dt k m of None \<Rightarrow> None | Some m' \<Rightarrow> MM_Update dt m')"

text \<open>What stays fixed while a motion from \<open>p\<close> to \<open>q\<close> is under way.\<close>

definition underway :: "real Vector2 \<Rightarrow> real Vector2 \<Rightarrow> real MotionMaster \<Rightarrow> real MotionMaster \<Rightarrow> bool" where
  "underway p q m0 m \<longleftrightarrow>
     startPoint m = p \<and> endPoint m = q \<and> speed m = speed m0 \<and>
     arrivalTime m = quotient (Vector2Distance p q) (speed m0)"

subsection \<open>Directions\<close>

text \<open>
  \<^verbatim>\<open>ENUM(Direction)\<close> starts at \<^verbatim>\<open>DIRECTION_RIGHT\<close> = 0 and turns counter-clockwise
  in steps of 45 degrees; \<^verbatim>\<open>DIRECTION_ENUM_COUNT\<close> is 8. A direction is the \<open>int\<close>
  the enum is.
\<close>

definition DIRECTION_ENUM_COUNT :: nat where
  "DIRECTION_ENUM_COUNT = 8"

definition Vector2Scale :: "real Vector2 \<Rightarrow> real \<Rightarrow> real Vector2" where
  "Vector2Scale v scale' = \<lparr>vx = vx v * scale', vy = vy v * scale'\<rparr>"

text \<open>
  Modelled from the spec: \<^verbatim>\<open>Vector2Atan\<close> and \<^verbatim>\<open>Wrap\<close> are defined in the core
  header. The spec has the direction computed from "the vector's angle", normalised
  "into [0, 2 pi)": \<open>Vector2Atan\<close> is the angle of the vector in the interval from
  minus pi (exclusive) to pi, as \<^verbatim>\<open>atan2f\<close> gives it, and \<open>Wrap v lo hi\<close> moves \<open>v\<close>
  by a multiple of \<open>hi - lo\<close> into the interval from \<open>lo\<close> up to \<open>hi\<close>.
\<close>

definition Vector2Atan :: "real Vector2 \<Rightarrow> real" where
  "Vector2Atan v = Arg (Complex (vx v) (vy v))"

definition Wrap :: "real \<Rightarrow> real \<Rightarrow> real \<Rightarrow> real" where
  "Wrap v lo hi = v - (hi - lo) * of_int \<lfloor>(v - lo) / (hi - lo)\<rfloor>"

text \<open>
  \<^verbatim>\<open>roundf\<close> rounds to the nearest integer, halves away from zero; the cast
  \<^verbatim>\<open>(int)\<close> drops the fraction.
\<close>

definition roundf :: "real \<Rightarrow> real" where
  "roundf v = (if 0 \<le> v then of_int \<lfloor>v + 1/2\<rfloor> else - of_int \<lfloor>- v + 1/2\<rfloor>)"

definition int_of_float :: "real \<Rightarrow> int" where
  "int_of_float v = (if 0 \<le> v then \<lfloor>v\<rfloor> else \<lceil>v\<rceil>)"

definition DirectionFromVector :: "real Vector2 \<Rightarrow> int" where
  "DirectionFromVector v =
     (let angleTaus = Wrap (Vector2Atan v) 0 (2 * pi) / (2 * pi);
          floatIndex = roundf (angleTaus * real DIRECTION_ENUM_COUNT);
          index = int_of_float floatIndex;
          index1 = (if index \<ge> int DIRECTION_ENUM_COUNT then 0 else index);
          index2 = (if index1 < 0 then int DIRECTION_ENUM_COUNT - 1 else index1)
      in index2)"

subsection \<open>Assets, images, sprites, scripts\<close>

text \<open>
  An asset pointer is either \<^verbatim>\<open>NULL\<close> (\<open>None\<close>) or points to a cached asset, which
  is modelled by the path it was acquired under (what \<^verbatim>\<open>GetAssetPath\<close> returns)
  together with its content. Of the content only what the functions below read is
  kept: the size and the red, green, blue and alpha channels of an image, the size of
  a texture, the frames of a sprite, the durations of the paragraphs of a script and
  its command index.
\<close>

record 'a Asset =
  assetPath :: string
  assetData :: 'a

record Color =
  chan_r :: nat
  chan_g :: nat
  chan_b :: nat
  chan_a :: nat

record Image =
  img_width :: int
  img_height :: int
  pixels :: "Color list"

record Texture =
  tex_width :: int
  tex_height :: int

record Sprite =
  frames :: "Texture list"

record 'f Paragraph =
  duration :: 'f

record 'f Script =
  paragraphs :: "'f Paragraph list"
  commandIndex :: int

record Expression =
  exprName :: string
  portrait :: "Texture Asset option"

text \<open>
  \<^verbatim>\<open>GetImageColor\<close> is the graphics library's pixel read: the pixel of row \<open>yi\<close> and
  column \<open>xi\<close> of a row-major image, and the zero colour outside the image.
\<close>

definition GetImageColor :: "Image \<Rightarrow> int \<Rightarrow> int \<Rightarrow> Color" where
  "GetImageColor img xi yi =
     (if 0 \<le> xi \<and> xi < img_width img \<and> 0 \<le> yi \<and> yi < img_height img
      then pixels img ! nat (yi * img_width img + xi)
      else \<lparr>chan_r = 0, chan_g = 0, chan_b = 0, chan_a = 0\<rparr>)"

subsection \<open>Objects and the scene table\<close>

text \<open>
  \<^verbatim>\<open>STRUCT(Object)\<close>, field by field. \<open>sprites\<close> has \<^verbatim>\<open>DIRECTION_ENUM_COUNT\<close> = 8
  entries and \<open>expressions\<close> has 10. A \<^verbatim>\<open>Direction\<close> is kept as the \<open>int\<close> the
  enum is, since the scene loader casts any stored integer to it.
\<close>

record 'f Object =
  name :: string
  position :: "'f Vector2"
  zOffset :: 'f
  direction :: int
  sprites :: "Sprite Asset option list"
  animationFps :: 'f
  animationTimeAccumulator :: 'f
  animationFrame :: int
  collisionMap :: "Image Asset option"
  script :: "'f Script Asset option"
  numExpressions :: int
  expressions :: "Expression list"
  motionMaster :: "'f MotionMaster"

text \<open>The globals \<^verbatim>\<open>objects[100]\<close> and \<^verbatim>\<open>numObjects\<close>.\<close>

record 'f Scene =
  objects :: "'f Object list"
  numObjects :: int

subsection \<open>Collision\<close>

text \<open>
  \<^verbatim>\<open>(int)floorf(v)\<close> is \<open>\<lfloor>v\<rfloor>\<close>. (Beyond the range of \<^verbatim>\<open>int\<close> the C cast is
  undefined; such a coordinate is outside every mask, whose sides are \<^verbatim>\<open>int\<close>s.)
\<close>

definition CheckCollisionMap :: "Image \<Rightarrow> real Vector2 \<Rightarrow> bool" where
  "CheckCollisionMap map' pos =
     (let xi = \<lfloor>vx pos\<rfloor>; yi = \<lfloor>vy pos\<rfloor> in
      if xi < 0 then False
      else if xi \<ge> img_width map' then False
      else if yi < 0 then False
      else if yi \<ge> img_height map' then False
      else chan_r (GetImageColor map' xi yi) < 128)"

text \<open>
  The earlier prototype of the same function (three arguments, one global collision
  map) has the opposite convention outside the map.
\<close>

definition CheckCollisionMap_prototype :: "Image \<Rightarrow> real \<Rightarrow> real \<Rightarrow> bool" where
  "CheckCollisionMap_prototype map' px py =
     (let xi = \<lfloor>px\<rfloor>; yi = \<lfloor>py\<rfloor> in
      if xi < 0 then True
      else if xi \<ge> img_width map' then True
      else if yi < 0 then True
      else if yi \<ge> img_height map' then True
      else chan_r (GetImageColor map' xi yi) < 128)"

record 'f Rectangle =
  rec_x :: 'f
  rec_y :: 'f
  rec_width :: 'f
  rec_height :: 'f

text \<open>The graphics library's point-in-rectangle test: left and top edges inclusive.\<close>

definition CheckCollisionPointRec :: "real Vector2 \<Rightarrow> real Rectangle \<Rightarrow> bool" where
  "CheckCollisionPointRec point rec \<longleftrightarrow>
     vx point \<ge> rec_x rec \<and> vx point < rec_x rec + rec_width rec \<and>
     vy point \<ge> rec_y rec \<and> vy point < rec_y rec + rec_height rec"

definition maskRectangle :: "real Object \<Rightarrow> Image \<Rightarrow> real Rectangle" where
  "maskRectangle object' m =
     \<lparr>rec_x = vx (position object') - 0.5 * real_of_int (img_width m),
      rec_y = vy (position object') - 0.5 * real_of_int (img_height m),
      rec_width = real_of_int (img_width m),
      rec_height = real_of_int (img_height m)\<rparr>"

text \<open>The body of the loop for one object: does this object reject \<open>newPosition\<close>?\<close>

definition rejects :: "real Object \<Rightarrow> real Vector2 \<Rightarrow> bool" where
  "rejects object' newPosition =
     (case collisionMap object' of
        None \<Rightarrow> False
      | Some a \<Rightarrow>
          (let rectangle = maskRectangle object' (assetData a);
               topLeft = \<lparr>vx = rec_x rectangle, vy = rec_y rectangle\<rparr>;
               localPosition = Vector2Subtract newPosition topLeft
           in CheckCollisionPointRec newPosition rectangle \<and>
              CheckCollisionMap (assetData a) localPosition))"

function scanObjects :: "real Scene \<Rightarrow> real Vector2 \<Rightarrow> real Vector2 \<Rightarrow> int \<Rightarrow> real Vector2" where
  "scanObjects s pos newPosition i =
     (if 0 \<le> i \<and> i < numObjects s then
        (if rejects (objects s ! nat i) newPosition then pos
         else scanObjects s pos newPosition (i + 1))
      else newPosition)"
  by pat_completeness auto
termination
  by (relation "measure (\<lambda>(s, pos, newPosition, i). nat (numObjects s - i))") auto

declare scanObjects.simps [simp del]

definition MovePointWithCollisions :: "real Scene \<Rightarrow> real Vector2 \<Rightarrow> real Vector2 \<Rightarrow> real Vector2" where
  "MovePointWithCollisions s pos velocity = scanObjects s pos (Vector2Add pos velocity) 0"

subsection \<open>Camera shake\<close>

record Camera =
  cameraTrauma :: real
  cameraTraumaFalloff :: real

definition DEFAULT_CAMERA_SHAKE_TRAUMA :: real where
  "DEFAULT_CAMERA_SHAKE_TRAUMA = 0.5"

definition DEFAULT_CAMERA_SHAKE_FALLOFF :: "real \<Rightarrow> real" where
  "DEFAULT_CAMERA_SHAKE_FALLOFF frameTime = 0.7 * frameTime"

definition UpdateCameraShake :: "real \<Rightarrow> Camera \<Rightarrow> Camera" where
  "UpdateCameraShake frameTime c =
     (let c1 = c\<lparr>cameraTrauma := cameraTrauma c - cameraTraumaFalloff c\<rparr> in
      if cameraTrauma c1 \<le> 0
      then c1\<lparr>cameraTrauma := 0, cameraTraumaFalloff := DEFAULT_CAMERA_SHAKE_FALLOFF frameTime\<rparr>
      else c1)"

text \<open>
  The console command \<^verbatim>\<open>shake [trauma] [falloff]\<close>. \<^verbatim>\<open>ParseCommandFloatArg\<close> is
  the parameter \<open>parse\<close>: \<open>None\<close> when it reports failure.
\<close>

definition HandleCameraShakeCommand ::
  "(string \<Rightarrow> real option) \<Rightarrow> real \<Rightarrow> string list \<Rightarrow> Camera \<Rightarrow> bool \<times> Camera" where
  "HandleCameraShakeCommand parse frameTime args c =
     (if length args > 2 then (False, c)
      else
        (let trauma = (if length args \<ge> 1 then parse (args ! 0) else Some DEFAULT_CAMERA_SHAKE_TRAUMA);
             falloff = (if length args \<ge> 2 then parse (args ! 1)
                        else Some (DEFAULT_CAMERA_SHAKE_FALLOFF frameTime))
         in case (trauma, falloff) of
              (Some t, Some f) \<Rightarrow> (True, c\<lparr>cameraTrauma := cameraTrauma c + t, cameraTraumaFalloff := f\<rparr>)
            | _ \<Rightarrow> (False, c)))"

subsection \<open>Current sprite, foot position and the z-sort\<close>

text \<open>
  \<^verbatim>\<open>MirrorDirectionVertically\<close> lives in the core header; the functions that call it
  take it as the parameter \<open>mirror\<close>. \<^verbatim>\<open>sprite->numFrames\<close> is \<open>length (frames sprite)\<close>.
\<close>

definition GetCurrentSprite :: "(int \<Rightarrow> int) \<Rightarrow> 'f Object \<Rightarrow> Sprite Asset option" where
  "GetCurrentSprite mirror object' =
     (case sprites object' ! nat (direction object') of
        Some sprite \<Rightarrow> Some sprite
      | None \<Rightarrow> sprites object' ! nat (mirror (direction object')))"

definition GetCurrentTexture :: "(int \<Rightarrow> int) \<Rightarrow> 'f Object \<Rightarrow> Texture option" where
  "GetCurrentTexture mirror object' =
     (case GetCurrentSprite mirror object' of
        None \<Rightarrow> None
      | Some sprite \<Rightarrow> Some (frames (assetData sprite) ! nat (animationFrame object')))"

definition GetFootPositionInScreenSpace :: "(int \<Rightarrow> int) \<Rightarrow> real Object \<Rightarrow> real Vector2" where
  "GetFootPositionInScreenSpace mirror object' =
     (case GetCurrentTexture mirror object' of
        Some objectTexture \<Rightarrow>
          (position object')\<lparr>vy := vy (position object') + real_of_int (tex_height objectTexture) * 0.5\<rparr>
      | None \<Rightarrow> position object')"

text \<open>The comparator handed to \<^verbatim>\<open>Sort\<close>, on two entries of the pointer array.\<close>

definition zCompare :: "(int \<Rightarrow> int) \<Rightarrow> real Object \<Rightarrow> real Object \<Rightarrow> int" where
  "zCompare mirror l r =
     (let lz = vy (GetFootPositionInScreenSpace mirror l) + zOffset l;
          rz = vy (GetFootPositionInScreenSpace mirror r) + zOffset r in
      if lz > rz then -1 else if lz < rz then 1 else 0)"

text \<open>
  Modelled from the spec: \<^verbatim>\<open>Sort\<close>, the comparator-driven sort of the core library,
  is not part of the sources at hand. The spec asks for an ordering by the comparator
  with ties in any order; the model places each element in front of the first element
  it does not compare greater than.
\<close>

fun place :: "('a \<Rightarrow> 'a \<Rightarrow> int) \<Rightarrow> 'a \<Rightarrow> 'a list \<Rightarrow> 'a list" where
  "place cmp e [] = [e]"
| "place cmp e (h # t) = (if cmp e h \<le> 0 then e # h # t else h # place cmp e t)"

definition Sort :: "('a \<Rightarrow> 'a \<Rightarrow> int) \<Rightarrow> 'a list \<Rightarrow> 'a list" where
  "Sort cmp xs = foldr (place cmp) xs []"

text \<open>
  An \<^verbatim>\<open>Object *\<close> into the table is its index. The array \<open>pointers\<close> holds
  \<^verbatim>\<open>&objects[i]\<close> for \<open>i\<close> from 0 up to \<open>numObjects\<close>.
\<close>

definition GetZSortedObjects :: "(int \<Rightarrow> int) \<Rightarrow> real Scene \<Rightarrow> nat list" where
  "GetZSortedObjects mirror s =
     (let pointers = [0 ..< nat (numObjects s)] in
      Sort (\<lambda>left right. zCompare mirror (objects s ! left) (objects s ! right)) pointers)"

subsection \<open>The Talking state\<close>

datatype GameState = GAMESTATE_PLAYING | GAMESTATE_TALKING | GAMESTATE_PAUSED | GAMESTATE_EDITOR










subsection \<open>Binary streams\<close>

text \<open>
  Modelled from the spec: \<^verbatim>\<open>BinaryStream\<close> and its \<^verbatim>\<open>Read...\<close> and
  \<^verbatim>\<open>Write...\<close> functions, \<^verbatim>\<open>CopyString\<close> and \<^verbatim>\<open>BytesEqual\<close> belong to the core
  library, which is not part of the sources at hand. Following the spec's section on the
  scene file: integers and floats are four bytes, little-endian; a string is its
  characters followed by a NUL; the buffer of a stream is bounded by its \<open>size\<close>.
  A byte is a \<open>char\<close>. Of a stream that is written, \<open>buffer\<close> holds the bytes below the
  cursor (those that \<^verbatim>\<open>SaveFileData\<close> is given); a write keeps what fits below
  \<open>size\<close>. A stream that is read yields the bytes from the cursor up to \<open>size\<close>.
\<close>

type_synonym float32 = "32 word"

record BinaryStream =
  buffer :: string
  size :: nat
  cursor :: nat

definition NUL :: char where
  "NUL = CHR 0x00"

fun le_encode :: "nat \<Rightarrow> int \<Rightarrow> string" where
  "le_encode 0 v = []"
| "le_encode (Suc k) v = char_of v # le_encode k (v div 256)"

fun le_decode :: "string \<Rightarrow> int" where
  "le_decode [] = 0"
| "le_decode (c # cs) = of_char c + 256 * le_decode cs"

definition le32 :: "32 word \<Rightarrow> string" where
  "le32 w = le_encode 4 (uint w)"

definition WriteBytes :: "BinaryStream \<Rightarrow> string \<Rightarrow> BinaryStream" where
  "WriteBytes st bytes =
     (let written = take (size st - cursor st) bytes in
      st\<lparr>buffer := buffer st @ written, cursor := cursor st + length written\<rparr>)"

definition WriteInt :: "BinaryStream \<Rightarrow> int \<Rightarrow> BinaryStream" where
  "WriteInt st v = WriteBytes st (le32 (word_of_int v))"

definition WriteFloat :: "BinaryStream \<Rightarrow> float32 \<Rightarrow> BinaryStream" where
  "WriteFloat st v = WriteBytes st (le32 v)"

definition WriteString :: "BinaryStream \<Rightarrow> string \<Rightarrow> BinaryStream" where
  "WriteString st str = WriteBytes st (str @ [NUL])"

definition remaining :: "BinaryStream \<Rightarrow> string" where
  "remaining st = drop (cursor st) (take (size st) (buffer st))"

definition ReadBytes :: "BinaryStream \<Rightarrow> nat \<Rightarrow> string \<times> BinaryStream" where
  "ReadBytes st n = (take n (remaining st), st\<lparr>cursor := cursor st + n\<rparr>)"

definition ReadInt :: "BinaryStream \<Rightarrow> int \<times> BinaryStream" where
  "ReadInt st = (sint (word_of_int (le_decode (take 4 (remaining st))) :: 32 word),
                 st\<lparr>cursor := cursor st + 4\<rparr>)"

definition ReadFloat :: "BinaryStream \<Rightarrow> float32 \<times> BinaryStream" where
  "ReadFloat st = (word_of_int (le_decode (take 4 (remaining st))), st\<lparr>cursor := cursor st + 4\<rparr>)"

definition ReadString :: "BinaryStream \<Rightarrow> string \<times> BinaryStream" where
  "ReadString st =
     (let str = takeWhile (\<lambda>c. c \<noteq> NUL) (remaining st) in
      (str, st\<lparr>cursor := cursor st + length str + 1\<rparr>))"

definition CopyString :: "string \<Rightarrow> nat \<Rightarrow> string" where
  "CopyString src dstSize = take (dstSize - 1) src"

subsection \<open>Files and the asset cache\<close>

text \<open>
  The file system as the two file functions see it. \<^verbatim>\<open>LoadFileData\<close> returns no
  data for a missing, an unreadable and an empty file; \<^verbatim>\<open>SaveFileData\<close> replaces the
  file where the path can be written.
\<close>

datatype FileEntry = Unreadable | Contents string

record FileSystem =
  files :: "string \<Rightarrow> FileEntry option"
  canWrite :: "string \<Rightarrow> bool"

definition FileExists :: "FileSystem \<Rightarrow> string \<Rightarrow> bool" where
  "FileExists fs path \<longleftrightarrow> files fs path \<noteq> None"

definition LoadFileData :: "FileSystem \<Rightarrow> string \<Rightarrow> string option" where
  "LoadFileData fs path =
     (case files fs path of
        Some (Contents bytes) \<Rightarrow> (if bytes = [] then None else Some bytes)
      | _ \<Rightarrow> None)"

definition SaveFileData :: "FileSystem \<Rightarrow> string \<Rightarrow> string \<Rightarrow> bool \<times> FileSystem" where
  "SaveFileData fs path bytes =
     (if canWrite fs path then (True, fs\<lparr>files := (files fs)(path \<mapsto> Contents bytes)\<rparr>)
      else (False, fs))"

text \<open>
  Modelled from the spec: the asset cache (\<^verbatim>\<open>AcquireScript\<close>, \<^verbatim>\<open>AcquireCollisionMap\<close>,
  \<^verbatim>\<open>AcquireSprite\<close>, \<^verbatim>\<open>AcquireTexture\<close>, \<^verbatim>\<open>GetAssetPath\<close>, \<^verbatim>\<open>ReleaseAsset\<close>) is
  an external collaborator. An asset is acquired by its path; the empty path stands for
  no asset; a path the cache cannot load gives no asset. Reference counts are not part of
  the state modelled here, so releasing an asset changes nothing.
\<close>

record AssetCache =
  scriptAssets :: "string \<Rightarrow> float32 Script option"
  imageAssets :: "string \<Rightarrow> Image option"
  spriteAssets :: "string \<Rightarrow> Sprite option"
  textureAssets :: "string \<Rightarrow> Texture option"

definition Acquire :: "(string \<Rightarrow> 'a option) \<Rightarrow> string \<Rightarrow> 'a Asset option" where
  "Acquire loader path =
     (if path = [] then None
      else case loader path of
             None \<Rightarrow> None
           | Some content \<Rightarrow> Some \<lparr>assetPath = path, assetData = content\<rparr>)"

definition GetAssetPath :: "'a Asset option \<Rightarrow> string" where
  "GetAssetPath asset = (case asset of None \<Rightarrow> [] | Some a \<Rightarrow> assetPath a)"

subsection \<open>The scene codec\<close>

definition SCENE_MAGIC :: string where
  "SCENE_MAGIC = ''KEKW''"

definition SCENE_VERSION :: int where
  "SCENE_VERSION = 2"

text \<open>The scene table together with \<^verbatim>\<open>lastSavedOrLoadedScene\<close>.\<close>

record SceneStore =
  table :: "float32 Scene"
  lastSavedOrLoadedScene :: string

text \<open>\<^verbatim>\<open>Destroy\<close>: the assets are released and the record is filled with zero bytes.\<close>

definition zeroObject :: "float32 Object" where
  "zeroObject =
     \<lparr>name = [], position = \<lparr>vx = 0, vy = 0\<rparr>, zOffset = 0, direction = 0,
      sprites = replicate 8 None, animationFps = 0, animationTimeAccumulator = 0,
      animationFrame = 0, collisionMap = None, script = None, numExpressions = 0,
      expressions = replicate 10 \<lparr>exprName = [], portrait = None\<rparr>,
      motionMaster = \<lparr>currentPoint = \<lparr>vx = 0, vy = 0\<rparr>, isMoving = False,
                       startPoint = \<lparr>vx = 0, vy = 0\<rparr>, endPoint = \<lparr>vx = 0, vy = 0\<rparr>,
                       motionTime = 0, arrivalTime = Finite 0, speed = 0\<rparr>\<rparr>"

definition Destroy :: "float32 Object \<Rightarrow> float32 Object" where
  "Destroy object' = zeroObject"

text \<open>\<^verbatim>\<open>for (int i = 0; i < numObjects; ++i) Destroy(&objects[i]);\<close> with \<open>k\<close> rounds left.\<close>

fun destroyLoop :: "nat \<Rightarrow> nat \<Rightarrow> float32 Object list \<Rightarrow> float32 Object list" where
  "destroyLoop 0 i objs = objs"
| "destroyLoop (Suc k) i objs = destroyLoop k (i + 1) (objs[i := Destroy (objs ! i)])"

text \<open>The two inner loops of the loader, over the sprite slots and the expression slots.\<close>

fun loadSprites :: "AssetCache \<Rightarrow> nat \<Rightarrow> BinaryStream \<Rightarrow> Sprite Asset option list \<times> BinaryStream" where
  "loadSprites cache 0 st = ([], st)"
| "loadSprites cache (Suc k) st =
     (let (path, st1) = ReadString st;
          (rest, st2) = loadSprites cache k st1
      in (Acquire (spriteAssets cache) path # rest, st2))"

fun loadExpressions :: "AssetCache \<Rightarrow> nat \<Rightarrow> BinaryStream \<Rightarrow> Expression list \<times> BinaryStream" where
  "loadExpressions cache 0 st = ([], st)"
| "loadExpressions cache (Suc k) st =
     (let (expressionName, st1) = ReadString st;
          (path, st2) = ReadString st1;
          (rest, st3) = loadExpressions cache k st2
      in (\<lparr>exprName = CopyString expressionName 32, portrait = Acquire (textureAssets cache) path\<rparr> # rest,
          st3))"

text \<open>The body of the loader's loop over the objects.\<close>

definition loadObject :: "AssetCache \<Rightarrow> float32 Object \<Rightarrow> BinaryStream \<Rightarrow> float32 Object \<times> BinaryStream" where
  "loadObject cache object' st =
     (let (nm, st1) = ReadString st;
          (px, st2) = ReadFloat st1;
          (py, st3) = ReadFloat st2;
          (z, st4) = ReadFloat st3;
          (fps, st5) = ReadFloat st4;
          (dir, st6) = ReadInt st5;
          (scriptPath, st7) = ReadString st6;
          (mapPath, st8) = ReadString st7;
          (sprs, st9) = loadSprites cache DIRECTION_ENUM_COUNT st8;
          (exprs, st10) = loadExpressions cache 10 st9
      in (object'\<lparr>name := CopyString nm 50, position := \<lparr>vx = px, vy = py\<rparr>, zOffset := z,
                   animationFps := fps, direction := dir,
                   script := Acquire (scriptAssets cache) scriptPath,
                   collisionMap := Acquire (imageAssets cache) mapPath,
                   sprites := sprs, expressions := exprs\<rparr>,
          st10))"

fun loadLoop :: "AssetCache \<Rightarrow> nat \<Rightarrow> nat \<Rightarrow> float32 Object list \<Rightarrow> BinaryStream
                  \<Rightarrow> float32 Object list \<times> BinaryStream" where
  "loadLoop cache 0 i objs st = (objs, st)"
| "loadLoop cache (Suc k) i objs st =
     (let (object', st1) = loadObject cache (objs ! i) st
      in loadLoop cache k (i + 1) (objs[i := object']) st1)"

datatype LoadResult =
    FileMissing
  | FileUnreadable
  | NotASceneFile
  | WrongVersion int
  | WritesPastTable
  | Loaded

text \<open>
  \<^verbatim>\<open>LoadScene\<close>. The result says which message was logged. A stored object count
  above the length of the table makes the C loop write past \<^verbatim>\<open>objects[99]\<close>, which
  is undefined; the model stops in front of that write with \<open>WritesPastTable\<close>.
\<close>

definition LoadScene :: "AssetCache \<Rightarrow> FileSystem \<Rightarrow> string \<Rightarrow> SceneStore \<Rightarrow> LoadResult \<times> SceneStore" where
  "LoadScene cache fs path g =
     (case LoadFileData fs path of
        None \<Rightarrow> (if \<not> FileExists fs path then (FileMissing, g) else (FileUnreadable, g))
      | Some data \<Rightarrow>
          (let stream = \<lparr>buffer = data, size = length data, cursor = 0\<rparr>;
               (magic, stream1) = ReadBytes stream 4
           in if magic \<noteq> SCENE_MAGIC then (NotASceneFile, g)
              else
                (let (version, stream2) = ReadInt stream1
                 in if version \<noteq> SCENE_VERSION then (WrongVersion version, g)
                    else
                      (let objs1 = destroyLoop (nat (numObjects (table g))) 0 (objects (table g));
                           (n, stream3) = ReadInt stream2;
                           (objs2, stream4) = loadLoop cache (min (nat n) (length objs1)) 0 objs1 stream3
                       in if nat n > length objs1
                          then (WritesPastTable, g\<lparr>table := \<lparr>objects = objs2, numObjects = n\<rparr>\<rparr>)
                          else (Loaded, \<lparr>table = \<lparr>objects = objs2, numObjects = n\<rparr>,
                                         lastSavedOrLoadedScene = CopyString path 256\<rparr>)))))"

text \<open>The writer's loops.\<close>

fun saveSprites :: "float32 Object \<Rightarrow> nat \<Rightarrow> nat \<Rightarrow> BinaryStream \<Rightarrow> BinaryStream" where
  "saveSprites object' 0 dir st = st"
| "saveSprites object' (Suc k) dir st =
     saveSprites object' k (dir + 1) (WriteString st (GetAssetPath (sprites object' ! dir)))"

fun saveExpressions :: "float32 Object \<Rightarrow> nat \<Rightarrow> nat \<Rightarrow> BinaryStream \<Rightarrow> BinaryStream" where
  "saveExpressions object' 0 j st = st"
| "saveExpressions object' (Suc k) j st =
     saveExpressions object' k (j + 1)
       (WriteString (WriteString st (exprName (expressions object' ! j)))
          (GetAssetPath (portrait (expressions object' ! j))))"

definition saveObject :: "float32 Object \<Rightarrow> BinaryStream \<Rightarrow> BinaryStream" where
  "saveObject object' st =
     (let st1 = WriteString st (name object');
          st2 = WriteFloat st1 (vx (position object'));
          st3 = WriteFloat st2 (vy (position object'));
          st4 = WriteFloat st3 (zOffset object');
          st5 = WriteFloat st4 (animationFps object');
          st6 = WriteInt st5 (direction object');
          st7 = WriteString st6 (GetAssetPath (script object'));
          st8 = WriteString st7 (GetAssetPath (collisionMap object'));
          st9 = saveSprites object' DIRECTION_ENUM_COUNT 0 st8
      in saveExpressions object' 10 0 st9)"

fun saveLoop :: "nat \<Rightarrow> nat \<Rightarrow> float32 Object list \<Rightarrow> BinaryStream \<Rightarrow> BinaryStream" where
  "saveLoop 0 i objs st = st"
| "saveLoop (Suc k) i objs st = saveLoop k (i + 1) objs (saveObject (objs ! i) st)"

definition maxBytes :: nat where
  "maxBytes = 32 * 1024"

text \<open>\<^verbatim>\<open>SaveScene\<close>: the flag says whether the file was written.\<close>

definition SaveScene :: "FileSystem \<Rightarrow> string \<Rightarrow> SceneStore \<Rightarrow> bool \<times> FileSystem \<times> SceneStore" where
  "SaveScene fs path g =
     (let stream = \<lparr>buffer = [], size = maxBytes, cursor = 0\<rparr>;
          stream1 = WriteBytes stream (take 4 SCENE_MAGIC);
          stream2 = WriteInt stream1 SCENE_VERSION;
          stream3 = WriteInt stream2 (numObjects (table g));
          stream4 = saveLoop (nat (numObjects (table g))) 0 (objects (table g)) stream3;
          (ok, fs1) = SaveFileData fs path (take (cursor stream4) (buffer stream4))
      in if ok then (True, fs1, g\<lparr>lastSavedOrLoadedScene := CopyString path 256\<rparr>)
         else (False, fs1, g))"

text \<open>
  The scene file as the spec's format section lays it out, as one list of bytes; and what
  the codec stores of an object.
\<close>

definition cstr :: "string \<Rightarrow> string" where
  "cstr str = str @ [NUL]"

definition objectBytes :: "float32 Object \<Rightarrow> string" where
  "objectBytes object' =
     cstr (name object') @ le32 (vx (position object')) @ le32 (vy (position object')) @
     le32 (zOffset object') @ le32 (animationFps object') @ le32 (word_of_int (direction object')) @
     cstr (GetAssetPath (script object')) @ cstr (GetAssetPath (collisionMap object')) @
     concat (map (\<lambda>dir. cstr (GetAssetPath (sprites object' ! dir))) [0 ..< 8]) @
     concat (map (\<lambda>j. cstr (exprName (expressions object' ! j)) @
                       cstr (GetAssetPath (portrait (expressions object' ! j)))) [0 ..< 10])"

definition sceneBytes :: "float32 Scene \<Rightarrow> string" where
  "sceneBytes s =
     SCENE_MAGIC @ le32 (word_of_int SCENE_VERSION) @ le32 (word_of_int (numObjects s)) @
     concat (map objectBytes (take (nat (numObjects s)) (objects s)))"

definition serialized ::
  "float32 Object \<Rightarrow> string \<times> float32 \<times> float32 \<times> float32 \<times> float32 \<times> int \<times> string \<times> string \<times>
     string list \<times> (string \<times> string) list" where
  "serialized object' =
     (name object', vx (position object'), vy (position object'), zOffset object',
      animationFps object', direction object', GetAssetPath (script object'),
      GetAssetPath (collisionMap object'),
      map (\<lambda>dir. GetAssetPath (sprites object' ! dir)) [0 ..< 8],
      map (\<lambda>j. (exprName (expressions object' ! j), GetAssetPath (portrait (expressions object' ! j))))
        [0 ..< 10])"

subsection \<open>Well-formed scenes\<close>

text \<open>
  What the C types and the asset cache guarantee of a scene table: an \<^verbatim>\<open>int\<close> has
  32 bits; a string in a \<^verbatim>\<open>char\<close> array of \<open>cap\<close> bytes is NUL-free and shorter
  than \<open>cap\<close>; an asset pointer is what the cache hands out for the asset's path;
  the table has 100 entries, of which the first \<open>numObjects\<close> are in use.
\<close>

definition int32 :: "int \<Rightarrow> bool" where
  "int32 v \<longleftrightarrow> - (2 ^ 31) \<le> v \<and> v < 2 ^ 31"

definition cstring :: "nat \<Rightarrow> string \<Rightarrow> bool" where
  "cstring cap str \<longleftrightarrow> NUL \<notin> set str \<and> length str < cap"

definition held :: "(string \<Rightarrow> 'a option) \<Rightarrow> 'a Asset option \<Rightarrow> bool" where
  "held loader asset \<longleftrightarrow>
     NUL \<notin> set (GetAssetPath asset) \<and> Acquire loader (GetAssetPath asset) = asset"

definition wfObject :: "AssetCache \<Rightarrow> float32 Object \<Rightarrow> bool" where
  "wfObject cache object' \<longleftrightarrow>
     cstring 50 (name object') \<and> int32 (direction object') \<and>
     held (scriptAssets cache) (script object') \<and>
     held (imageAssets cache) (collisionMap object') \<and>
     list_all (\<lambda>dir. held (spriteAssets cache) (sprites object' ! dir)) [0 ..< 8] \<and>
     list_all (\<lambda>j. cstring 32 (exprName (expressions object' ! j)) \<and>
                    held (textureAssets cache) (portrait (expressions object' ! j))) [0 ..< 10]"

definition wfScene :: "AssetCache \<Rightarrow> float32 Scene \<Rightarrow> bool" where
  "wfScene cache s \<longleftrightarrow>
     length (objects s) = 100 \<and> 0 \<le> numObjects s \<and> numObjects s \<le> 100 \<and>
     list_all (wfObject cache) (take (nat (numObjects s)) (objects s))"

text \<open>A stream that is written holds the first \<open>size\<close> bytes of what was written to it.\<close>

definition holds :: "BinaryStream \<Rightarrow> string \<Rightarrow> bool" where
  "holds st bytes \<longleftrightarrow> buffer st = take (size st) bytes \<and> cursor st = length (buffer st)"

text \<open>The characters of the name and of the ten expression names of an object.\<close>

definition nameBytes :: "float32 Object \<Rightarrow> nat" where
  "nameBytes object' =
     length (name object') + sum_list (map (\<lambda>j. length (exprName (expressions object' ! j))) [0 ..< 10])"

subsection \<open>Example inputs\<close>

text \<open>
  A cache without assets, a writable disk without files; a table whose 100 objects all
  have a name of 49 characters and ten expression names of 31 characters; a table with
  one vase; a disk with a text file; a MotionMaster as constructed; a dialogue on its
  last paragraph; a mask of two by two pixels with one dark pixel, on an object at
  (10, 10); three objects at different depths.
\<close>

definition noAssets :: AssetCache where
  "noAssets = \<lparr>scriptAssets = (\<lambda>p. None), imageAssets = (\<lambda>p. None),
               spriteAssets = (\<lambda>p. None), textureAssets = (\<lambda>p. None)\<rparr>"

definition blankDisk :: FileSystem where
  "blankDisk = \<lparr>files = (\<lambda>p. None), canWrite = (\<lambda>p. True)\<rparr>"

definition crowdedObject :: "float32 Object" where
  "crowdedObject =
     zeroObject\<lparr>name := replicate 49 CHR ''n'',
                expressions := replicate 10 \<lparr>exprName = replicate 31 CHR ''e'', portrait = None\<rparr>\<rparr>"

definition crowdedStore :: SceneStore where
  "crowdedStore = \<lparr>table = \<lparr>objects = replicate 100 crowdedObject, numObjects = 100\<rparr>,
                   lastSavedOrLoadedScene = []\<rparr>"

definition vaseSprite :: "Sprite Asset" where
  "vaseSprite = \<lparr>assetPath = ''vase.png'', assetData = \<lparr>frames = [\<lparr>tex_width = 32, tex_height = 48\<rparr>]\<rparr>\<rparr>"

definition vaseCache :: AssetCache where
  "vaseCache = noAssets\<lparr>spriteAssets := (\<lambda>p. if p = ''vase.png'' then Some (assetData vaseSprite) else None)\<rparr>"

definition vaseObject :: "float32 Object" where
  "vaseObject = zeroObject\<lparr>name := ''Vase'', position := \<lparr>vx = 0x44200000, vy = 0x43B40000\<rparr>,
                           direction := 6, sprites := (replicate 8 None)[0 := Some vaseSprite]\<rparr>"

definition vaseStore :: SceneStore where
  "vaseStore = \<lparr>table = \<lparr>objects = vaseObject # replicate 99 zeroObject, numObjects = 1\<rparr>,
                lastSavedOrLoadedScene = []\<rparr>"

definition strayDisk :: FileSystem where
  "strayDisk = \<lparr>files = (\<lambda>p. if p = ''notes.txt'' then Some (Contents ''NOPE, not a scene'') else None),
                canWrite = (\<lambda>p. True)\<rparr>"

definition restingMotion :: "real MotionMaster" where
  "restingMotion = \<lparr>currentPoint = \<lparr>vx = 0, vy = 0\<rparr>, isMoving = False,
                    startPoint = \<lparr>vx = 0, vy = 0\<rparr>, endPoint = \<lparr>vx = 0, vy = 0\<rparr>,
                    motionTime = 0, arrivalTime = Finite 0, speed = 10\<rparr>"

definition zeroedMotion :: "real MotionMaster" where
  "zeroedMotion = \<lparr>currentPoint = \<lparr>vx = 0, vy = 0\<rparr>, isMoving = False,
                   startPoint = \<lparr>vx = 0, vy = 0\<rparr>, endPoint = \<lparr>vx = 0, vy = 0\<rparr>,
                   motionTime = 0, arrivalTime = Finite 0, speed = 0\<rparr>"




definition darkPixel :: Color where
  "darkPixel = \<lparr>chan_r = 10, chan_g = 10, chan_b = 10, chan_a = 255\<rparr>"

definition lightPixel :: Color where
  "lightPixel = \<lparr>chan_r = 200, chan_g = 200, chan_b = 200, chan_a = 255\<rparr>"

definition wallMask :: "Image Asset" where
  "wallMask = \<lparr>assetPath = ''wall-collision.png'',
               assetData = \<lparr>img_width = 2, img_height = 2,
                            pixels = [darkPixel, lightPixel, lightPixel, lightPixel]\<rparr>\<rparr>"

definition plainObject :: "real Object" where
  "plainObject =
     \<lparr>name = [], position = \<lparr>vx = 0, vy = 0\<rparr>, zOffset = 0, direction = 0,
      sprites = replicate 8 None, animationFps = 0, animationTimeAccumulator = 0,
      animationFrame = 0, collisionMap = None, script = None, numExpressions = 0,
      expressions = replicate 10 \<lparr>exprName = [], portrait = None\<rparr>,
      motionMaster = \<lparr>currentPoint = \<lparr>vx = 0, vy = 0\<rparr>, isMoving = False,
                       startPoint = \<lparr>vx = 0, vy = 0\<rparr>, endPoint = \<lparr>vx = 0, vy = 0\<rparr>,
                       motionTime = 0, arrivalTime = Finite 0, speed = 10\<rparr>\<rparr>"

definition wallScene :: "real Scene" where
  "wallScene =
     \<lparr>objects = [plainObject, plainObject\<lparr>position := \<lparr>vx = 10, vy = 10\<rparr>, collisionMap := Some wallMask\<rparr>],
      numObjects = 2\<rparr>"

text \<open>
  Three objects for the z-sort. The first faces right (direction 0) with a sprite of two
  frames for that direction and shows the second frame, 10 high; the second has no
  sprite; the third faces up (direction 2), has a sprite only for the mirrored direction
  6, 4 high, and a z offset of 10.
\<close>

definition tenHighSprite :: "Sprite Asset" where
  "tenHighSprite = \<lparr>assetPath = ''player_right'',
                     assetData = \<lparr>frames = [\<lparr>tex_width = 8, tex_height = 100\<rparr>,
                                            \<lparr>tex_width = 8, tex_height = 10\<rparr>]\<rparr>\<rparr>"

definition fourHighSprite :: "Sprite Asset" where
  "fourHighSprite = \<lparr>assetPath = ''player_down'',
                      assetData = \<lparr>frames = [\<lparr>tex_width = 8, tex_height = 4\<rparr>]\<rparr>\<rparr>"

definition layeredScene :: "real Scene" where
  "layeredScene =
     \<lparr>objects = [plainObject\<lparr>position := \<lparr>vx = 0, vy = 5\<rparr>,
                              sprites := (replicate 8 None)[0 := Some tenHighSprite],
                              animationFrame := 1\<rparr>,
                 plainObject\<lparr>position := \<lparr>vx = 0, vy = 7\<rparr>\<rparr>,
                 plainObject\<lparr>position := \<lparr>vx = 0, vy = 2\<rparr>, zOffset := 10, direction := 2,
                              sprites := (replicate 8 None)[6 := Some fourHighSprite]\<rparr>],
      numObjects = 3\<rparr>"

section \<open>MotionMaster\<close>

lemma Vector2Distance_positive: "a \<noteq> b \<Longrightarrow> 0 < Vector2Distance a b"
proof -
  assume "a \<noteq> b"
  then have "vx a \<noteq> vx b \<or> vy a \<noteq> vy b" by (cases a, cases b) auto
  then have "(vx a - vx b) * (vx a - vx b) + (vy a - vy b) * (vy a - vy b) \<noteq> 0"
    by (auto simp: sum_squares_eq_zero_iff)
  moreover have "0 \<le> (vx a - vx b) * (vx a - vx b) + (vy a - vy b) * (vy a - vy b)"
    by simp
  ultimately have "0 < (vx a - vx b) * (vx a - vx b) + (vy a - vy b) * (vy a - vy b)"
    by linarith
  then show ?thesis by (simp add: Vector2Distance_def)
qed

lemma quotient_not_zero: "0 < a \<Longrightarrow> quotient a b \<noteq> Finite 0"
  by (simp add: quotient_def)

lemma fraction_quotient:
  "0 < a \<Longrightarrow> fraction t (quotient a b) = Some (if b = 0 then 0 else t / (a / b))"
  by (simp add: fraction_def quotient_def)

lemma MM_Update_underway:
  assumes "p \<noteq> q" and "underway p q m0 m" and "isMoving m"
  shows "MM_Update dt m =
     Some (if at_most (motionTime m + dt * speed m0) (quotient (Vector2Distance p q) (speed m0))
      then m\<lparr>motionTime := motionTime m + dt * speed m0,
             currentPoint :=
               \<lparr>vx = Lerp (vx p) (vx q)
                       (if speed m0 = 0 then 0
                        else (motionTime m + dt * speed m0) / (Vector2Distance p q / speed m0)),
                vy = Lerp (vy p) (vy q)
                       (if speed m0 = 0 then 0
                        else (motionTime m + dt * speed m0) / (Vector2Distance p q / speed m0))\<rparr>\<rparr>
      else \<lparr>currentPoint = q, isMoving = False, startPoint = Vector2Zero,
            endPoint = Vector2Zero, motionTime = 0, arrivalTime = Finite 0, speed = 10\<rparr>)"
proof -
  have d: "0 < Vector2Distance p q" by (rule Vector2Distance_positive [OF assms(1)])
  from assms(2) have f: "startPoint m = p" "endPoint m = q" "speed m = speed m0"
    "arrivalTime m = quotient (Vector2Distance p q) (speed m0)"
    by (simp_all add: underway_def)
  show ?thesis
    unfolding MM_Update_def Let_def f fraction_quotient [OF d]
    using assms(3) by (simp add: MM_Reset_def f)
qed

lemma MM_Updates_underway:
  assumes "p \<noteq> q"
  shows "\<exists>mk. MM_Updates dt k (MM_MoveToPoint p q m0) = Some mk \<and>
           (isMoving mk \<longrightarrow> underway p q m0 mk \<and> motionTime mk = motionTime m0 + real k * (dt * speed m0))"
proof (induction k)
  case 0
  show ?case using assms by (simp add: MM_MoveToPoint_def underway_def)
next
  case (Suc k)
  then obtain mk where mk: "MM_Updates dt k (MM_MoveToPoint p q m0) = Some mk"
    and inv: "isMoving mk \<longrightarrow> underway p q m0 mk \<and> motionTime mk = motionTime m0 + real k * (dt * speed m0)"
    by blast
  show ?case
  proof (cases "isMoving mk")
    case False
    then have "MM_Update dt mk = Some mk" by (simp add: MM_Update_def)
    with mk False show ?thesis by simp
  next
    case True
    with inv have u: "underway p q m0 mk" and t: "motionTime mk = motionTime m0 + real k * (dt * speed m0)"
      by simp_all
    note upd = MM_Update_underway [OF assms u True, of dt]
    show ?thesis
      using mk upd u t by (auto simp: underway_def algebra_simps)
  qed
qed



text \<open>
  With the speed 0 of a zero-filled MotionMaster the arrival time is infinite: the
  motion stays at \<open>p\<close> and never ends.
\<close>

lemma zero_speed_never_arrives:
  assumes "p \<noteq> q" and "speed m0 = 0"
  shows "\<exists>mk. MM_Updates dt k (MM_MoveToPoint p q m0) = Some mk \<and> isMoving mk \<and>
           arrivalTime mk = PlusInfinity \<and> (0 < k \<longrightarrow> currentPoint mk = p)"
proof (induction k)
  case 0
  show ?case using assms by (simp add: MM_MoveToPoint_def quotient_def)
next
  case (Suc k)
  then obtain mk where mk: "MM_Updates dt k (MM_MoveToPoint p q m0) = Some mk" and mv: "isMoving mk"
    by blast
  from MM_Updates_underway [OF assms(1), of dt k m0] mk mv
  have u: "underway p q m0 mk" by simp
  from MM_Update_underway [OF assms(1) u mv, of dt] assms(2) u
  have "MM_Update dt mk = Some (mk\<lparr>motionTime := motionTime mk, currentPoint := p\<rparr>)"
    by (simp add: at_most_def quotient_def Lerp_def)
  moreover have "arrivalTime mk = PlusInfinity"
    using u assms(2) by (simp add: underway_def quotient_def)
  ultimately show ?case using mk mv by simp
qed

text \<open>
  Claim C8. \<^verbatim>\<open>MoveToPoint(p, p)\<close> returns before its first assignment: the
  MotionMaster is the same record afterwards, the \<open>isMoving\<close> flag included.
\<close>

theorem MoveToPoint_same_point_noop: "MM_MoveToPoint p p m = m"
  by (simp add: MM_MoveToPoint_def)

theorem MoveToPoint_same_point_witness:
  "MM_MoveToPoint \<lparr>vx = 3, vy = 4\<rparr> \<lparr>vx = 3, vy = 4\<rparr> (restingMotion\<lparr>isMoving := True\<rparr>)
     = restingMotion\<lparr>isMoving := True\<rparr>"
  using MoveToPoint_same_point_noop [of "\<lparr>vx = 3, vy = 4\<rparr>" "restingMotion\<lparr>isMoving := True\<rparr>"] .

section \<open>Directions\<close>

lemma DirectionFromVector_range: "0 \<le> DirectionFromVector v \<and> DirectionFromVector v < 8"
  by (simp add: DirectionFromVector_def Let_def DIRECTION_ENUM_COUNT_def)

lemma Wrap_range:
  assumes "lo < hi"
  shows "lo \<le> Wrap v lo hi \<and> Wrap v lo hi < hi"
proof -
  let ?d = "hi - lo" and ?n = "\<lfloor>(v - lo) / (hi - lo)\<rfloor>"
  have d: "0 < ?d" using assms by simp
  have "of_int ?n \<le> (v - lo) / ?d" by (rule of_int_floor_le)
  then have "of_int ?n * ?d \<le> (v - lo) / ?d * ?d"
    using d by (intro mult_right_mono) simp_all
  then have l: "of_int ?n * ?d \<le> v - lo" using d by simp
  have "(v - lo) / ?d < of_int ?n + 1" by linarith
  then have "(v - lo) / ?d * ?d < (of_int ?n + 1) * ?d"
    using d by (intro mult_strict_right_mono) simp_all
  then have u: "v - lo < (of_int ?n + 1) * ?d" using d by simp
  from l u show ?thesis by (simp add: Wrap_def algebra_simps)
qed

lemma Wrap_angle:
  assumes "- pi < a" and "a \<le> pi"
  shows "Wrap a 0 (2 * pi) = (if a < 0 then a + 2 * pi else a)"
proof (cases "a < 0")
  case True
  have "\<lfloor>a / (2 * pi)\<rfloor> = - 1"
  proof (rule floor_unique)
    have "- (2 * pi) \<le> a" using assms(1) pi_gt_zero by linarith
    then show "of_int (- 1) \<le> a / (2 * pi)" using pi_gt_zero by (simp add: pos_le_divide_eq)
    show "a / (2 * pi) < of_int (- 1) + 1" using True pi_gt_zero by (simp add: pos_divide_less_eq)
  qed
  then show ?thesis using True by (simp add: Wrap_def)
next
  case False
  have "\<lfloor>a / (2 * pi)\<rfloor> = 0"
  proof (rule floor_unique)
    show "of_int 0 \<le> a / (2 * pi)" using False pi_gt_zero by simp
    have "a < 2 * pi" using assms(2) pi_gt_zero by linarith
    then show "a / (2 * pi) < of_int 0 + 1" using pi_gt_zero by (simp add: pos_divide_less_eq)
  qed
  then show ?thesis using False by (simp add: Wrap_def)
qed

lemma angle_of_vector:
  "vx v = sqrt (vx v * vx v + vy v * vy v) * cos (Wrap (Vector2Atan v) 0 (2 * pi)) \<and>
   vy v = sqrt (vx v * vx v + vy v * vy v) * sin (Wrap (Vector2Atan v) 0 (2 * pi))"
proof -
  let ?z = "Complex (vx v) (vy v)"
  have b: "- pi < Arg ?z" "Arg ?z \<le> pi" using Arg_bounded [of ?z] by simp_all
  have w: "cos (Wrap (Arg ?z) 0 (2 * pi)) = cos (Arg ?z)" "sin (Wrap (Arg ?z) 0 (2 * pi)) = sin (Arg ?z)"
    by (simp_all add: Wrap_angle [OF b])
  have "rcis (cmod ?z) (Arg ?z) = ?z" by (rule rcis_cmod_Arg)
  then have "Re (rcis (cmod ?z) (Arg ?z)) = vx v" "Im (rcis (cmod ?z) (Arg ?z)) = vy v"
    by simp_all
  then have "cmod ?z * cos (Arg ?z) = vx v" "cmod ?z * sin (Arg ?z) = vy v"
    by simp_all
  moreover have "cmod ?z = sqrt (vx v * vx v + vy v * vy v)"
    by (simp add: cmod_def power2_eq_square)
  ultimately show ?thesis unfolding Vector2Atan_def w by simp
qed

lemma Vector2Atan_scale:
  assumes "0 < k"
  shows "Vector2Atan (Vector2Scale v k) = Vector2Atan v"
proof -
  let ?z = "Complex (vx v) (vy v)"
  have e: "Complex (vx v * k) (vy v * k) = of_real k * ?z"
    by (simp add: complex_eq_iff)
  have "sgn (of_real k * ?z) = sgn ?z"
    using assms by (simp add: sgn_mult sgn_of_real)
  moreover have "of_real k * ?z = 0 \<longleftrightarrow> ?z = 0" using assms by simp
  ultimately have "Arg (of_real k * ?z) = Arg ?z"
    unfolding Arg_def by simp
  then show ?thesis by (simp add: Vector2Atan_def Vector2Scale_def e)
qed

lemma DirectionFromVector_nearest:
  "DirectionFromVector v = \<lfloor>Wrap (Vector2Atan v) 0 (2 * pi) / (pi / 4) + 1/2\<rfloor> mod 8"
proof -
  let ?t = "Wrap (Vector2Atan v) 0 (2 * pi)"
  have r: "0 \<le> ?t" "?t < 2 * pi" using Wrap_range [of 0 "2 * pi" "Vector2Atan v"] pi_gt_zero by simp_all
  have e: "?t / (2 * pi) * 8 = ?t / (pi / 4)" by simp
  have nn: "0 \<le> ?t / (pi / 4)" using r(1) pi_gt_zero by simp
  have lt: "?t / (pi / 4) < 8" using r(2) pi_gt_zero by (simp add: pos_divide_less_eq)
  let ?n = "\<lfloor>?t / (pi / 4) + 1/2\<rfloor>"
  have n0: "0 \<le> ?n" using nn by (simp add: le_floor_iff)
  have n8: "?n \<le> 8" using lt by (simp add: floor_le_iff)
  have rf: "int_of_float (roundf (?t / (pi / 4))) = ?n"
  proof -
    have "roundf (?t / (pi / 4)) = of_int ?n" using nn by (simp only: roundf_def if_True)
    moreover have "int_of_float (of_int ?n) = ?n" using n0 by (simp add: int_of_float_def)
    ultimately show ?thesis by (simp only:)
  qed
  have "Wrap (Vector2Atan v) 0 (2 * pi) / (2 * pi) * real DIRECTION_ENUM_COUNT = ?t / (pi / 4)"
    by (simp add: DIRECTION_ENUM_COUNT_def)
  then have "DirectionFromVector v = (if ?n \<ge> 8 then 0 else if ?n < 0 then 7 else ?n)"
    unfolding DirectionFromVector_def Let_def
    by (simp only: rf) (simp add: DIRECTION_ENUM_COUNT_def)
  moreover have "\<And>n::int. 0 \<le> n \<Longrightarrow> n \<le> 8 \<Longrightarrow> (if n \<ge> 8 then 0 else if n < 0 then 7 else n) = n mod 8"
    by auto
  ultimately show ?thesis using n0 n8 by (simp only:)
qed

lemma Vector2Atan_down: "Vector2Atan \<lparr>vx = 0, vy = - 1\<rparr> = - (pi / 2)"
proof -
  have "sgn (Complex 0 (- 1)) = cis (- (pi / 2))"
    by (simp add: complex_eq_iff complex_sgn_def cmod_def)
  moreover have "- pi < - (pi / 2)" "- (pi / 2) \<le> pi"
    using pi_gt_zero by linarith+
  ultimately have "Arg (Complex 0 (- 1)) = - (pi / 2)"
    by (rule cis_Arg_unique)
  then show ?thesis by (simp add: Vector2Atan_def)
qed

text \<open>
  Claim C6. \<^verbatim>\<open>DirectionFromVector\<close> returns a direction from 0 up to 8 (exclusive).
  The angle it works with, the vector's angle wrapped by \<^verbatim>\<open>Wrap\<close>, lies from 0 up to
  2 pi (exclusive) and is the angle of the vector: the vector is its length times the
  cosine and the sine of that angle. The result is the integer nearest to the angle
  divided by pi / 4 (45 degrees), taken modulo 8, so that the eighth bin is bin 0. It
  does not change when the vector is scaled by a positive factor.
\<close>

theorem DirectionFromVector_nearest_octant:
  "0 \<le> DirectionFromVector v \<and> DirectionFromVector v < 8 \<and>
   0 \<le> Wrap (Vector2Atan v) 0 (2 * pi) \<and> Wrap (Vector2Atan v) 0 (2 * pi) < 2 * pi \<and>
   vx v = sqrt (vx v * vx v + vy v * vy v) * cos (Wrap (Vector2Atan v) 0 (2 * pi)) \<and>
   vy v = sqrt (vx v * vx v + vy v * vy v) * sin (Wrap (Vector2Atan v) 0 (2 * pi)) \<and>
   DirectionFromVector v = \<lfloor>Wrap (Vector2Atan v) 0 (2 * pi) / (pi / 4) + 1/2\<rfloor> mod 8 \<and>
   (0 < k \<longrightarrow> DirectionFromVector (Vector2Scale v k) = DirectionFromVector v)"
proof -
  have r: "0 \<le> Wrap (Vector2Atan v) 0 (2 * pi) \<and> Wrap (Vector2Atan v) 0 (2 * pi) < 2 * pi"
    using Wrap_range [of 0 "2 * pi" "Vector2Atan v"] pi_gt_zero by simp
  have s: "0 < k \<longrightarrow> DirectionFromVector (Vector2Scale v k) = DirectionFromVector v"
    by (simp add: DirectionFromVector_def Vector2Atan_scale)
  from DirectionFromVector_range [of v] r angle_of_vector [of v] DirectionFromVector_nearest [of v] s
  show ?thesis by (simp only: simp_thms)
qed

theorem DirectionFromVector_witness:
  "(0::real) < 2 \<and> DirectionFromVector \<lparr>vx = 0, vy = - 1\<rparr> = 6 \<and>
   DirectionFromVector (Vector2Scale \<lparr>vx = 0, vy = - 1\<rparr> 2) = 6"
proof -
  have w: "Wrap (Vector2Atan \<lparr>vx = 0, vy = - 1\<rparr>) 0 (2 * pi) = 3 * pi / 2"
    using Wrap_angle [of "- (pi / 2)"] pi_gt_zero by (simp add: Vector2Atan_down)
  have n: "\<lfloor>(3 * pi / 2) / (pi / 4) + 1/2\<rfloor> mod 8 = (6::int)"
    by simp
  have p: "(0::real) < 2" by simp
  note t = DirectionFromVector_nearest_octant [of "\<lparr>vx = 0, vy = - 1\<rparr>" 2]
  from t have a: "DirectionFromVector \<lparr>vx = 0, vy = - 1\<rparr> =
      \<lfloor>Wrap (Vector2Atan \<lparr>vx = 0, vy = - 1\<rparr>) 0 (2 * pi) / (pi / 4) + 1/2\<rfloor> mod 8"
    by blast
  from t p have b: "DirectionFromVector (Vector2Scale \<lparr>vx = 0, vy = - 1\<rparr> 2) =
      DirectionFromVector \<lparr>vx = 0, vy = - 1\<rparr>"
    by blast
  from a have "DirectionFromVector \<lparr>vx = 0, vy = - 1\<rparr> = 6"
    unfolding w n .
  with b p show ?thesis by (simp only: simp_thms)
qed

section \<open>Camera shake\<close>

text \<open>
  Claim C10. After \<^verbatim>\<open>UpdateCameraShake\<close> the trauma is not negative: the call
  subtracts the falloff, and when the difference is zero or less it stores zero and
  puts the falloff back to its default; otherwise the falloff stays as it was.
\<close>

theorem UpdateCameraShake_trauma:
  "0 \<le> cameraTrauma (UpdateCameraShake frameTime c) \<and>
   UpdateCameraShake frameTime c =
     (if cameraTrauma c - cameraTraumaFalloff c \<le> 0
      then \<lparr>cameraTrauma = 0, cameraTraumaFalloff = DEFAULT_CAMERA_SHAKE_FALLOFF frameTime\<rparr>
      else \<lparr>cameraTrauma = cameraTrauma c - cameraTraumaFalloff c,
            cameraTraumaFalloff = cameraTraumaFalloff c\<rparr>)"
  by (simp add: UpdateCameraShake_def Let_def)

theorem UpdateCameraShake_witness:
  "UpdateCameraShake (1/60) \<lparr>cameraTrauma = 0.5, cameraTraumaFalloff = 0.2\<rparr>
     = \<lparr>cameraTrauma = 0.3, cameraTraumaFalloff = 0.2\<rparr> \<and>
   UpdateCameraShake (1/60) \<lparr>cameraTrauma = 0.1, cameraTraumaFalloff = 0.2\<rparr>
     = \<lparr>cameraTrauma = 0, cameraTraumaFalloff = 0.7 * (1/60)\<rparr>"
  using UpdateCameraShake_trauma [of "1/60" "\<lparr>cameraTrauma = 0.5, cameraTraumaFalloff = 0.2\<rparr>"]
    UpdateCameraShake_trauma [of "1/60" "\<lparr>cameraTrauma = 0.1, cameraTraumaFalloff = 0.2\<rparr>"]
  by (simp add: DEFAULT_CAMERA_SHAKE_FALLOFF_def)

lemma HandleCameraShakeCommand_two_args:
  "parse a = Some t \<Longrightarrow> parse b = Some f \<Longrightarrow>
     HandleCameraShakeCommand parse frameTime [a, b] c =
       (True, \<lparr>cameraTrauma = cameraTrauma c + t, cameraTraumaFalloff = f\<rparr>)"
  by (simp add: HandleCameraShakeCommand_def)

lemma custom_falloff_until_rest:
  assumes "parse a = Some t" and "parse b = Some f"
  shows "cameraTraumaFalloff
           (UpdateCameraShake frameTime (snd (HandleCameraShakeCommand parse frameTime [a, b] c))) =
         (if cameraTrauma c + t - f \<le> 0 then DEFAULT_CAMERA_SHAKE_FALLOFF frameTime else f)"
  using assms by (simp add: HandleCameraShakeCommand_two_args UpdateCameraShake_def Let_def)

section \<open>Collision\<close>

text \<open>
  Claim C4. \<^verbatim>\<open>CheckCollisionMap\<close> reports a point as blocked exactly when its
  floored coordinates lie inside the mask and the red channel of that pixel is below
  128; so a point outside the mask is not blocked.
\<close>

theorem CheckCollisionMap_iff:
  "CheckCollisionMap m p \<longleftrightarrow>
     0 \<le> \<lfloor>vx p\<rfloor> \<and> \<lfloor>vx p\<rfloor> < img_width m \<and> 0 \<le> \<lfloor>vy p\<rfloor> \<and> \<lfloor>vy p\<rfloor> < img_height m \<and>
     chan_r (pixels m ! nat (\<lfloor>vy p\<rfloor> * img_width m + \<lfloor>vx p\<rfloor>)) < 128"
  by (auto simp: CheckCollisionMap_def GetImageColor_def Let_def)

theorem CheckCollisionMap_witness:
  "CheckCollisionMap (assetData wallMask) \<lparr>vx = 0.5, vy = 0.75\<rparr> \<and>
   \<not> CheckCollisionMap (assetData wallMask) \<lparr>vx = 1.5, vy = 0.75\<rparr> \<and>
   \<not> CheckCollisionMap (assetData wallMask) \<lparr>vx = -0.5, vy = 0.75\<rparr> \<and>
   \<not> CheckCollisionMap (assetData wallMask) \<lparr>vx = 0.5, vy = 2\<rparr>"
  using CheckCollisionMap_iff [of "assetData wallMask" "\<lparr>vx = 0.5, vy = 0.75\<rparr>"]
    CheckCollisionMap_iff [of "assetData wallMask" "\<lparr>vx = 1.5, vy = 0.75\<rparr>"]
    CheckCollisionMap_iff [of "assetData wallMask" "\<lparr>vx = -0.5, vy = 0.75\<rparr>"]
    CheckCollisionMap_iff [of "assetData wallMask" "\<lparr>vx = 0.5, vy = 2\<rparr>"]
  by (simp add: wallMask_def darkPixel_def lightPixel_def)

text \<open>The three-argument prototype treats a point outside the map as blocked.\<close>

lemma CheckCollisionMap_prototype_outside:
  "\<lfloor>px\<rfloor> < 0 \<or> img_width m \<le> \<lfloor>px\<rfloor> \<or> \<lfloor>py\<rfloor> < 0 \<or> img_height m \<le> \<lfloor>py\<rfloor> \<Longrightarrow>
     CheckCollisionMap_prototype m px py"
  by (auto simp: CheckCollisionMap_prototype_def Let_def)


lemma MovePointWithCollisions_blocked_example:
  "MovePointWithCollisions wallScene \<lparr>vx = 5, vy = 5\<rparr> \<lparr>vx = 4.5, vy = 4.25\<rparr> = \<lparr>vx = 5, vy = 5\<rparr>"
  by (simp add: MovePointWithCollisions_def scanObjects.simps wallScene_def plainObject_def rejects_def
      wallMask_def maskRectangle_def CheckCollisionPointRec_def CheckCollisionMap_def GetImageColor_def
      Vector2Add_def Vector2Subtract_def darkPixel_def lightPixel_def Let_def)




section \<open>Z-sort\<close>

lemma mset_place: "mset (place cmp e xs) = add_mset e (mset xs)"
  by (induction xs) auto

lemma set_place: "set (place cmp e xs) = insert e (set xs)"
  by (induction xs) auto

lemma mset_Sort: "mset (Sort cmp xs) = mset xs"
  unfolding Sort_def by (induction xs) (auto simp: mset_place)

lemma sorted_place:
  fixes key :: "'a \<Rightarrow> real"
  assumes cmp: "\<And>a b. cmp a b \<le> 0 \<longleftrightarrow> key b \<le> key a"
  shows "sorted_wrt (\<lambda>a b. key b \<le> key a) xs \<Longrightarrow> sorted_wrt (\<lambda>a b. key b \<le> key a) (place cmp e xs)"
proof (induction xs)
  case Nil
  then show ?case by simp
next
  case (Cons h t)
  show ?case
  proof (cases "cmp e h \<le> 0")
    case True
    then have "key h \<le> key e" using cmp by simp
    moreover have "\<forall>y\<in>set t. key y \<le> key h" using Cons.prems by simp
    ultimately have "\<forall>y\<in>set (h # t). key y \<le> key e" by auto
    with True Cons.prems show ?thesis by simp
  next
    case False
    then have "key e \<le> key h" using cmp [of e h] by linarith
    with False Cons show ?thesis by (auto simp: set_place)
  qed
qed

lemma sorted_Sort:
  fixes key :: "'a \<Rightarrow> real"
  assumes cmp: "\<And>a b. cmp a b \<le> 0 \<longleftrightarrow> key b \<le> key a"
  shows "sorted_wrt (\<lambda>a b. key b \<le> key a) (Sort cmp xs)"
  unfolding Sort_def by (induction xs) (auto intro: sorted_place [OF cmp])

lemma foot_key:
  "vy (GetFootPositionInScreenSpace mirror object') + zOffset object' =
     (case (case sprites object' ! nat (direction object') of
              Some sprite \<Rightarrow> Some sprite
            | None \<Rightarrow> sprites object' ! nat (mirror (direction object'))) of
        None \<Rightarrow> vy (position object')
      | Some sprite \<Rightarrow>
          vy (position object') +
          real_of_int (tex_height (frames (assetData sprite) ! nat (animationFrame object'))) * 0.5)
     + zOffset object'"
  by (simp add: GetFootPositionInScreenSpace_def GetCurrentTexture_def GetCurrentSprite_def
      split: option.splits)

lemma zCompare_le_0:
  "zCompare mirror l r \<le> 0 \<longleftrightarrow>
     vy (GetFootPositionInScreenSpace mirror r) + zOffset r
       \<le> vy (GetFootPositionInScreenSpace mirror l) + zOffset l"
  by (auto simp: zCompare_def Let_def)

lemma foot_key_layeredScene:
  "vy (GetFootPositionInScreenSpace (\<lambda>d. (8 - d) mod 8) (objects layeredScene ! 0))
     + zOffset (objects layeredScene ! 0) = 10"
  "vy (GetFootPositionInScreenSpace (\<lambda>d. (8 - d) mod 8) (objects layeredScene ! 1))
     + zOffset (objects layeredScene ! 1) = 7"
  "vy (GetFootPositionInScreenSpace (\<lambda>d. (8 - d) mod 8) (objects layeredScene ! 2))
     + zOffset (objects layeredScene ! 2) = 14"
  by (simp_all add: GetFootPositionInScreenSpace_def GetCurrentTexture_def GetCurrentSprite_def
      layeredScene_def plainObject_def tenHighSprite_def fourHighSprite_def)

lemma GetZSortedObjects_example: "GetZSortedObjects (\<lambda>d. (8 - d) mod 8) layeredScene = [2, 0, 1]"
proof -
  have u: "[0 ..< nat (numObjects layeredScene)] = [0, 1, 2]"
    by (simp add: layeredScene_def upt_rec)
  show ?thesis
    unfolding GetZSortedObjects_def Let_def u Sort_def
    by (simp add: zCompare_def foot_key_layeredScene [simplified] Let_def)
qed

text \<open>
  Claim C5. \<^verbatim>\<open>GetZSortedObjects\<close> returns every object of the table in use exactly
  once, in descending order of foot-position-y plus zOffset.

  The key is written out: the foot position's y is the object's \<open>position.y\<close>, plus half
  the height of the current texture when there is one; the current texture is the frame
  \<open>animationFrame\<close> of the sprite for the object's direction or, when the object has
  none for it, of the sprite for the vertically mirrored direction. Each index below
  \<open>numObjects\<close> occurs once in the result, and of two entries the earlier one has the
  key that is not smaller. (A direction or frame number outside its array is an
  out-of-bounds read in C; the model leaves that element unspecified, and the ordering is
  by whatever value it is.)
\<close>

theorem GetZSortedObjects_sorted_permutation:
  "mset (GetZSortedObjects mirror s) = mset [0 ..< nat (numObjects s)] \<and>
   (let key = (\<lambda>object'.
          (case (case sprites object' ! nat (direction object') of
                   Some sprite \<Rightarrow> Some sprite
                 | None \<Rightarrow> sprites object' ! nat (mirror (direction object'))) of
             None \<Rightarrow> vy (position object')
           | Some sprite \<Rightarrow>
               vy (position object') +
               real_of_int (tex_height (frames (assetData sprite) ! nat (animationFrame object'))) * 0.5)
          + zOffset object')
    in sorted_wrt (\<lambda>i j. key (objects s ! i) \<ge> key (objects s ! j)) (GetZSortedObjects mirror s))"
proof -
  have p: "mset (GetZSortedObjects mirror s) = mset [0 ..< nat (numObjects s)]"
    by (simp add: GetZSortedObjects_def mset_Sort)
  have "sorted_wrt (\<lambda>i j. vy (GetFootPositionInScreenSpace mirror (objects s ! i)) + zOffset (objects s ! i)
                          \<ge> vy (GetFootPositionInScreenSpace mirror (objects s ! j)) + zOffset (objects s ! j))
     (GetZSortedObjects mirror s)"
    unfolding GetZSortedObjects_def Let_def
    by (rule sorted_Sort [where key = "\<lambda>i. vy (GetFootPositionInScreenSpace mirror (objects s ! i))
                                           + zOffset (objects s ! i)"])
       (rule zCompare_le_0)
  then show ?thesis
    unfolding Let_def using p by (simp only: foot_key simp_thms)
qed

text \<open>
  On the three objects above the keys are 5 + 10/2 = 10, 7 and 2 + 4/2 + 10 = 14, so the
  third object comes first, then the first, then the second; by \<open>position.y\<close> alone the
  order would be second, first, third.
\<close>

theorem GetZSortedObjects_witness:
  "GetZSortedObjects (\<lambda>d. (8 - d) mod 8) layeredScene = [2, 0, 1] \<and>
   mset (GetZSortedObjects (\<lambda>d. (8 - d) mod 8) layeredScene) = mset [0 ..< nat (numObjects layeredScene)] \<and>
   sorted_wrt (\<lambda>i j. [10, 7, 14 :: real] ! i \<ge> [10, 7, 14] ! j)
     (GetZSortedObjects (\<lambda>d. (8 - d) mod 8) layeredScene)"
proof -
  from GetZSortedObjects_sorted_permutation [of "\<lambda>d. (8 - d) mod 8" layeredScene]
  have "mset (GetZSortedObjects (\<lambda>d. (8 - d) mod 8) layeredScene) = mset [0 ..< nat (numObjects layeredScene)]"
    by blast
  then show ?thesis using GetZSortedObjects_example by simp
qed

section \<open>Talking\<close>






section \<open>Scene codec\<close>

subsection \<open>Integers and floats as four bytes\<close>

lemma length_le_encode: "length (le_encode k v) = k"
  by (induction k arbitrary: v) auto

lemma length_le32: "length (le32 w) = 4"
  by (simp add: le32_def length_le_encode)

lemma le_decode_encode: "0 \<le> v \<Longrightarrow> v < 256 ^ k \<Longrightarrow> le_decode (le_encode k v) = v"
proof (induction k arbitrary: v)
  case 0
  then show ?case by simp
next
  case (Suc k)
  have "0 \<le> v div 256" "v div 256 < 256 ^ k" using Suc.prems by auto
  then have "le_decode (le_encode k (v div 256)) = v div 256" by (rule Suc.IH)
  then show ?case by simp
qed

lemma le32_decode: "word_of_int (le_decode (le32 w)) = (w :: 32 word)"
proof -
  have "uint w < 2 ^ 32" using uint_bounded [of w] by simp
  then have "le_decode (le_encode 4 (uint w)) = uint w"
    by (intro le_decode_encode) simp_all
  then show ?thesis by (simp add: le32_def)
qed

lemma le32_decode_int:
  assumes "- (2 ^ 31) \<le> v" "v < 2 ^ 31"
  shows "sint (word_of_int (le_decode (le32 (word_of_int v))) :: 32 word) = v"
  using assms by (simp add: le32_decode sint_sbintrunc' signed_take_bit_int_eq_self)

subsection \<open>Reading what was written\<close>

lemma remaining_advance: "remaining (st\<lparr>cursor := cursor st + n\<rparr>) = drop n (remaining st)"
  by (simp add: remaining_def add.commute)

lemma ReadFloat_le32:
  assumes "remaining st = le32 w @ rest"
  obtains st' where "ReadFloat st = (w, st')" "remaining st' = rest"
proof
  show "ReadFloat st = (w, st\<lparr>cursor := cursor st + 4\<rparr>)"
    using assms by (simp add: ReadFloat_def length_le32 le32_decode)
  show "remaining (st\<lparr>cursor := cursor st + 4\<rparr>) = rest"
    using assms by (simp add: remaining_advance length_le32)
qed

lemma ReadInt_le32:
  assumes "remaining st = le32 (word_of_int v) @ rest" "- (2 ^ 31) \<le> v" "v < 2 ^ 31"
  obtains st' where "ReadInt st = (v, st')" "remaining st' = rest"
proof
  show "ReadInt st = (v, st\<lparr>cursor := cursor st + 4\<rparr>)"
    using assms by (simp add: ReadInt_def length_le32 le32_decode_int)
  show "remaining (st\<lparr>cursor := cursor st + 4\<rparr>) = rest"
    using assms by (simp add: remaining_advance length_le32)
qed

lemma ReadString_cstr:
  assumes "remaining st = cstr str @ rest" "NUL \<notin> set str"
  obtains st' where "ReadString st = (str, st')" "remaining st' = rest"
proof
  have tw: "takeWhile (\<lambda>c. c \<noteq> NUL) (str @ NUL # rest) = str"
    using assms(2) by (induction str) auto
  show "ReadString st = (str, st\<lparr>cursor := cursor st + (length str + 1)\<rparr>)"
    using assms(1) tw by (simp add: ReadString_def cstr_def Let_def)
  show "remaining (st\<lparr>cursor := cursor st + (length str + 1)\<rparr>) = rest"
    using assms(1) by (simp only: remaining_advance) (simp add: cstr_def)
qed

lemma ReadBytes_magic:
  assumes "remaining st = SCENE_MAGIC @ rest"
  obtains st' where "ReadBytes st 4 = (SCENE_MAGIC, st')" "remaining st' = rest"
proof
  show "ReadBytes st 4 = (SCENE_MAGIC, st\<lparr>cursor := cursor st + 4\<rparr>)"
    using assms by (simp add: ReadBytes_def SCENE_MAGIC_def)
  show "remaining (st\<lparr>cursor := cursor st + 4\<rparr>) = rest"
    using assms by (simp add: remaining_advance SCENE_MAGIC_def)
qed

lemma loadSprites_roundtrip:
  assumes "remaining st = concat (map (\<lambda>d. cstr (GetAssetPath (f d))) [i ..< i + k]) @ rest"
    and "list_all (\<lambda>d. held (spriteAssets cache) (f d)) [i ..< i + k]"
  obtains st' where "loadSprites cache k st = (map f [i ..< i + k], st')" "remaining st' = rest"
proof -
  have "\<exists>st'. loadSprites cache k st = (map f [i ..< i + k], st') \<and> remaining st' = rest"
    using assms
  proof (induction k arbitrary: i st)
    case 0
    then show ?case by simp
  next
    case (Suc k)
    have upt: "[i ..< i + Suc k] = i # [Suc i ..< Suc i + k]"
      by (simp add: upt_conv_Cons)
    from Suc.prems(2) have hi: "held (spriteAssets cache) (f i)"
      and htl: "list_all (\<lambda>d. held (spriteAssets cache) (f d)) [Suc i ..< Suc i + k]"
      unfolding upt by simp_all
    from Suc.prems(1) have rem: "remaining st = cstr (GetAssetPath (f i)) @
        (concat (map (\<lambda>d. cstr (GetAssetPath (f d))) [Suc i ..< Suc i + k]) @ rest)"
      unfolding upt by simp
    from hi have nul: "NUL \<notin> set (GetAssetPath (f i))"
      and acq: "Acquire (spriteAssets cache) (GetAssetPath (f i)) = f i"
      by (simp_all add: held_def)
    obtain st1 where r1: "ReadString st = (GetAssetPath (f i), st1)"
      and m1: "remaining st1 = concat (map (\<lambda>d. cstr (GetAssetPath (f d))) [Suc i ..< Suc i + k]) @ rest"
      using ReadString_cstr [OF rem nul] by blast
    from Suc.IH [OF m1 htl] obtain st2
      where r2: "loadSprites cache k st1 = (map f [Suc i ..< Suc i + k], st2)" and m2: "remaining st2 = rest"
      by blast
    show ?case
      unfolding upt using r1 r2 m2 acq by simp
  qed
  then show ?thesis using that by blast
qed

lemma loadExpressions_roundtrip:
  assumes "remaining st =
      concat (map (\<lambda>j. cstr (exprName (f j)) @ cstr (GetAssetPath (portrait (f j)))) [i ..< i + k]) @ rest"
    and "list_all (\<lambda>j. cstring 32 (exprName (f j)) \<and> held (textureAssets cache) (portrait (f j))) [i ..< i + k]"
  obtains st' where
    "loadExpressions cache k st =
       (map (\<lambda>j. \<lparr>exprName = exprName (f j), portrait = portrait (f j)\<rparr>) [i ..< i + k], st')"
    "remaining st' = rest"
proof -
  have "\<exists>st'. loadExpressions cache k st =
       (map (\<lambda>j. \<lparr>exprName = exprName (f j), portrait = portrait (f j)\<rparr>) [i ..< i + k], st') \<and>
       remaining st' = rest"
    using assms
  proof (induction k arbitrary: i st)
    case 0
    then show ?case by simp
  next
    case (Suc k)
    have upt: "[i ..< i + Suc k] = i # [Suc i ..< Suc i + k]"
      by (simp add: upt_conv_Cons)
    let ?tl = "concat (map (\<lambda>j. cstr (exprName (f j)) @ cstr (GetAssetPath (portrait (f j))))
                  [Suc i ..< Suc i + k]) @ rest"
    from Suc.prems(2) have cs: "cstring 32 (exprName (f i))"
      and hi: "held (textureAssets cache) (portrait (f i))"
      and htl: "list_all (\<lambda>j. cstring 32 (exprName (f j)) \<and> held (textureAssets cache) (portrait (f j)))
                  [Suc i ..< Suc i + k]"
      unfolding upt by simp_all
    from Suc.prems(1) have rem: "remaining st = cstr (exprName (f i)) @
        (cstr (GetAssetPath (portrait (f i))) @ ?tl)"
      unfolding upt by simp
    from cs have nul0: "NUL \<notin> set (exprName (f i))" and len: "length (exprName (f i)) < 32"
      by (simp_all add: cstring_def)
    from hi have nul: "NUL \<notin> set (GetAssetPath (portrait (f i)))"
      and acq: "Acquire (textureAssets cache) (GetAssetPath (portrait (f i))) = portrait (f i)"
      by (simp_all add: held_def)
    obtain st1 where r1: "ReadString st = (exprName (f i), st1)"
      and m1: "remaining st1 = cstr (GetAssetPath (portrait (f i))) @ ?tl"
      using ReadString_cstr [OF rem nul0] by blast
    obtain st2 where r2: "ReadString st1 = (GetAssetPath (portrait (f i)), st2)"
      and m2: "remaining st2 = ?tl"
      using ReadString_cstr [OF m1 nul] by blast
    from Suc.IH [OF m2 htl] obtain st3
      where r3: "loadExpressions cache k st2 =
         (map (\<lambda>j. \<lparr>exprName = exprName (f j), portrait = portrait (f j)\<rparr>) [Suc i ..< Suc i + k], st3)"
        and m3: "remaining st3 = rest"
      by blast
    show ?case
      unfolding upt using r1 r2 r3 m3 acq len by (simp add: CopyString_def)
  qed
  then show ?thesis using that by blast
qed

lemma loadObject_roundtrip:
  assumes rem: "remaining st = objectBytes x @ rest" and wf: "wfObject cache x"
  obtains o' st' where "loadObject cache old st = (o', st')" "serialized o' = serialized x"
    "remaining st' = rest"
proof -
  let ?sp = "concat (map (\<lambda>dir. cstr (GetAssetPath (sprites x ! dir))) [0 ..< 0 + 8])"
  let ?ex = "concat (map (\<lambda>j. cstr (exprName (expressions x ! j)) @
                       cstr (GetAssetPath (portrait (expressions x ! j)))) [0 ..< 0 + 10])"
  from wf have nm: "NUL \<notin> set (name x)" "length (name x) < 50"
    and dir: "- (2 ^ 31) \<le> direction x" "direction x < 2 ^ 31"
    and hs: "NUL \<notin> set (GetAssetPath (script x))"
            "Acquire (scriptAssets cache) (GetAssetPath (script x)) = script x"
    and hm: "NUL \<notin> set (GetAssetPath (collisionMap x))"
            "Acquire (imageAssets cache) (GetAssetPath (collisionMap x)) = collisionMap x"
    and hsp: "list_all (\<lambda>dir. held (spriteAssets cache) (sprites x ! dir)) [0 ..< 0 + 8]"
    and hex: "list_all (\<lambda>j. cstring 32 (exprName (expressions x ! j)) \<and>
                    held (textureAssets cache) (portrait (expressions x ! j))) [0 ..< 0 + 10]"
    by (simp_all add: wfObject_def cstring_def int32_def held_def)
  have m0: "remaining st = cstr (name x) @ (le32 (vx (position x)) @ le32 (vy (position x)) @
     le32 (zOffset x) @ le32 (animationFps x) @ le32 (word_of_int (direction x)) @
     cstr (GetAssetPath (script x)) @ cstr (GetAssetPath (collisionMap x)) @ ?sp @ ?ex @ rest)"
    using rem by (simp add: objectBytes_def)
  obtain st1 where r1: "ReadString st = (name x, st1)"
    and m1: "remaining st1 = le32 (vx (position x)) @ (le32 (vy (position x)) @
     le32 (zOffset x) @ le32 (animationFps x) @ le32 (word_of_int (direction x)) @
     cstr (GetAssetPath (script x)) @ cstr (GetAssetPath (collisionMap x)) @ ?sp @ ?ex @ rest)"
    using ReadString_cstr [OF m0 nm(1)] by blast
  obtain st2 where r2: "ReadFloat st1 = (vx (position x), st2)"
    and m2: "remaining st2 = le32 (vy (position x)) @ (
     le32 (zOffset x) @ le32 (animationFps x) @ le32 (word_of_int (direction x)) @
     cstr (GetAssetPath (script x)) @ cstr (GetAssetPath (collisionMap x)) @ ?sp @ ?ex @ rest)"
    using ReadFloat_le32 [OF m1] by blast
  obtain st3 where r3: "ReadFloat st2 = (vy (position x), st3)"
    and m3: "remaining st3 = le32 (zOffset x) @ (le32 (animationFps x) @ le32 (word_of_int (direction x)) @
     cstr (GetAssetPath (script x)) @ cstr (GetAssetPath (collisionMap x)) @ ?sp @ ?ex @ rest)"
    using ReadFloat_le32 [OF m2] by blast
  obtain st4 where r4: "ReadFloat st3 = (zOffset x, st4)"
    and m4: "remaining st4 = le32 (animationFps x) @ (le32 (word_of_int (direction x)) @
     cstr (GetAssetPath (script x)) @ cstr (GetAssetPath (collisionMap x)) @ ?sp @ ?ex @ rest)"
    using ReadFloat_le32 [OF m3] by blast
  obtain st5 where r5: "ReadFloat st4 = (animationFps x, st5)"
    and m5: "remaining st5 = le32 (word_of_int (direction x)) @
     (cstr (GetAssetPath (script x)) @ cstr (GetAssetPath (collisionMap x)) @ ?sp @ ?ex @ rest)"
    using ReadFloat_le32 [OF m4] by blast
  obtain st6 where r6: "ReadInt st5 = (direction x, st6)"
    and m6: "remaining st6 = cstr (GetAssetPath (script x)) @
       (cstr (GetAssetPath (collisionMap x)) @ ?sp @ ?ex @ rest)"
    using ReadInt_le32 [OF m5 dir] by blast
  obtain st7 where r7: "ReadString st6 = (GetAssetPath (script x), st7)"
    and m7: "remaining st7 = cstr (GetAssetPath (collisionMap x)) @ (?sp @ ?ex @ rest)"
    using ReadString_cstr [OF m6 hs(1)] by blast
  obtain st8 where r8: "ReadString st7 = (GetAssetPath (collisionMap x), st8)"
    and m8: "remaining st8 = ?sp @ (?ex @ rest)"
    using ReadString_cstr [OF m7 hm(1)] by blast
  obtain st9 where r9: "loadSprites cache 8 st8 = (map (\<lambda>dir. sprites x ! dir) [0 ..< 0 + 8], st9)"
    and m9: "remaining st9 = ?ex @ rest"
    using loadSprites_roundtrip [OF m8 hsp] by blast
  obtain st10 where r10: "loadExpressions cache 10 st9 =
       (map (\<lambda>j. \<lparr>exprName = exprName (expressions x ! j), portrait = portrait (expressions x ! j)\<rparr>)
          [0 ..< 0 + 10], st10)"
    and m10: "remaining st10 = rest"
    using loadExpressions_roundtrip [OF m9 hex] by blast
  let ?o = "old\<lparr>name := name x, position := \<lparr>vx = vx (position x), vy = vy (position x)\<rparr>,
       zOffset := zOffset x, animationFps := animationFps x, direction := direction x,
       script := script x, collisionMap := collisionMap x,
       sprites := map (\<lambda>dir. sprites x ! dir) [0 ..< 0 + 8],
       expressions := map (\<lambda>j. \<lparr>exprName = exprName (expressions x ! j),
                                 portrait = portrait (expressions x ! j)\<rparr>) [0 ..< 0 + 10]\<rparr>"
  have ld: "loadObject cache old st = (?o, st10)"
    unfolding loadObject_def DIRECTION_ENUM_COUNT_def
    using r1 r2 r3 r4 r5 r6 r7 r8 r9 r10 nm(2) hs(2) hm(2)
    by (simp add: CopyString_def)
  have ser: "serialized ?o = serialized x"
    by (simp add: serialized_def)
  from ld ser m10 show ?thesis by (rule that)
qed

lemma loadObject_total: "\<exists>o' st'. loadObject cache old st = (o', st')"
  by (cases "loadObject cache old st") blast

lemma loadLoop_length: "length (fst (loadLoop cache k i objs st)) = length objs"
proof (induction k arbitrary: i objs st)
  case 0
  then show ?case by simp
next
  case (Suc k)
  obtain o' st1 where l: "loadObject cache (objs ! i) st = (o', st1)"
    using loadObject_total by blast
  show ?case using Suc.IH [of "i + 1" "objs[i := o']" st1] l by simp
qed

lemma loadLoop_below: "j < i \<Longrightarrow> fst (loadLoop cache k i objs st) ! j = objs ! j"
proof (induction k arbitrary: i objs st)
  case 0
  then show ?case by simp
next
  case (Suc k)
  obtain o' st1 where l: "loadObject cache (objs ! i) st = (o', st1)"
    using loadObject_total by blast
  have "fst (loadLoop cache k (i + 1) (objs[i := o']) st1) ! j = (objs[i := o']) ! j"
    using Suc.prems by (intro Suc.IH) simp
  then show ?case using l Suc.prems by simp
qed

lemma loadLoop_roundtrip:
  assumes "remaining st = concat (map objectBytes xs) @ rest"
    and "list_all (wfObject cache) xs"
    and "i + length xs \<le> length objs"
  shows "map serialized (take (length xs) (drop i (fst (loadLoop cache (length xs) i objs st))))
           = map serialized xs \<and>
         remaining (snd (loadLoop cache (length xs) i objs st)) = rest"
  using assms
proof (induction xs arbitrary: i objs st)
  case Nil
  then show ?case by simp
next
  case (Cons x xs)
  from Cons.prems(1) have rem: "remaining st = objectBytes x @ (concat (map objectBytes xs) @ rest)"
    by simp
  from Cons.prems(2) have wfx: "wfObject cache x" and wfxs: "list_all (wfObject cache) xs"
    by simp_all
  obtain o' st1 where l: "loadObject cache (objs ! i) st = (o', st1)"
    and ser: "serialized o' = serialized x"
    and m1: "remaining st1 = concat (map objectBytes xs) @ rest"
    using loadObject_roundtrip [OF rem wfx] by blast
  let ?objs1 = "objs[i := o']"
  let ?res = "loadLoop cache (length xs) (i + 1) ?objs1 st1"
  have len: "i + 1 + length xs \<le> length ?objs1" using Cons.prems(3) by simp
  note ih = Cons.IH [OF m1 wfxs len]
  have step: "loadLoop cache (length (x # xs)) i objs st = ?res"
    using l by simp
  have lres: "length (fst ?res) = length objs"
    by (simp add: loadLoop_length)
  have ati: "fst ?res ! i = o'"
    using loadLoop_below [of i "i + 1" cache "length xs" ?objs1 st1] Cons.prems(3) by simp
  have ilt: "i < length (fst ?res)" using lres Cons.prems(3) by simp
  have "drop i (fst ?res) = fst ?res ! i # drop (Suc i) (fst ?res)"
    using ilt by (simp add: Cons_nth_drop_Suc)
  then have "take (length (x # xs)) (drop i (fst ?res)) = o' # take (length xs) (drop (i + 1) (fst ?res))"
    using ati by simp
  then show ?case
    unfolding step using ih ser by simp
qed

lemma length_destroyLoop: "length (destroyLoop k i objs) = length objs"
  by (induction k arbitrary: i objs) auto

lemma LoadScene_header:
  assumes fdata: "LoadFileData fs path =
      Some (SCENE_MAGIC @ (le32 (word_of_int SCENE_VERSION) @ (le32 (word_of_int n) @ body)))"
    and n: "0 \<le> n" "n \<le> 100" and tbl: "length (objects (table g)) = 100"
  obtains st3 where "remaining st3 = body"
    "LoadScene cache fs path g =
       (Loaded, \<lparr>table = \<lparr>objects = fst (loadLoop cache (nat n) 0
                    (destroyLoop (nat (numObjects (table g))) 0 (objects (table g))) st3),
                  numObjects = n\<rparr>,
                 lastSavedOrLoadedScene = CopyString path 256\<rparr>)"
proof -
  let ?data = "SCENE_MAGIC @ (le32 (word_of_int SCENE_VERSION) @ (le32 (word_of_int n) @ body))"
  let ?st = "\<lparr>buffer = ?data, size = length ?data, cursor = 0\<rparr>"
  have m0: "remaining ?st = ?data"
    unfolding remaining_def by simp
  obtain st1 where r1: "ReadBytes ?st 4 = (SCENE_MAGIC, st1)"
    and m1: "remaining st1 = le32 (word_of_int SCENE_VERSION) @ (le32 (word_of_int n) @ body)"
    using ReadBytes_magic [OF m0] by blast
  have v: "- (2 ^ 31) \<le> SCENE_VERSION" "SCENE_VERSION < 2 ^ 31"
    by (simp_all add: SCENE_VERSION_def)
  obtain st2 where r2: "ReadInt st1 = (SCENE_VERSION, st2)"
    and m2: "remaining st2 = le32 (word_of_int n) @ body"
    using ReadInt_le32 [OF m1 v] by blast
  have nr: "- (2 ^ 31) \<le> n" "n < 2 ^ 31" using n by simp_all
  obtain st3 where r3: "ReadInt st2 = (n, st3)" and m3: "remaining st3 = body"
    using ReadInt_le32 [OF m2 nr] by blast
  let ?objs1 = "destroyLoop (nat (numObjects (table g))) 0 (objects (table g))"
  have l1: "length ?objs1 = 100" by (simp add: length_destroyLoop tbl)
  have mn: "min (nat n) (length ?objs1) = nat n" using l1 n by simp
  have "LoadScene cache fs path g =
       (Loaded, \<lparr>table = \<lparr>objects = fst (loadLoop cache (nat n) 0 ?objs1 st3), numObjects = n\<rparr>,
                 lastSavedOrLoadedScene = CopyString path 256\<rparr>)"
    unfolding LoadScene_def using fdata r1 r2 r3 mn l1 n by (simp add: Let_def split_beta)
  with m3 show ?thesis by (rule that)
qed

subsection \<open>What the writer leaves in its buffer\<close>

lemma holds_WriteBytes:
  assumes "holds st X"
  shows "holds (WriteBytes st bytes) (X @ bytes) \<and> size (WriteBytes st bytes) = size st"
  using assms by (auto simp: holds_def WriteBytes_def Let_def min_def)

lemma holds_WriteString:
  "holds st X \<Longrightarrow> holds (WriteString st str) (X @ cstr str) \<and> size (WriteString st str) = size st"
  unfolding WriteString_def cstr_def by (rule holds_WriteBytes)

lemma holds_WriteFloat:
  "holds st X \<Longrightarrow> holds (WriteFloat st v) (X @ le32 v) \<and> size (WriteFloat st v) = size st"
  unfolding WriteFloat_def by (rule holds_WriteBytes)

lemma holds_WriteInt:
  "holds st X \<Longrightarrow> holds (WriteInt st v) (X @ le32 (word_of_int v)) \<and> size (WriteInt st v) = size st"
  unfolding WriteInt_def by (rule holds_WriteBytes)

lemma holds_saveSprites:
  "holds st X \<Longrightarrow>
     holds (saveSprites x k i st)
       (X @ concat (map (\<lambda>dir. cstr (GetAssetPath (sprites x ! dir))) [i ..< i + k])) \<and>
     size (saveSprites x k i st) = size st"
proof (induction k arbitrary: i st X)
  case 0
  then show ?case by simp
next
  case (Suc k)
  have upt: "[i ..< i + Suc k] = i # [Suc i ..< Suc i + k]"
    by (simp add: upt_conv_Cons)
  note w = holds_WriteString [OF Suc.prems, of "GetAssetPath (sprites x ! i)"]
  from Suc.IH [OF w [THEN conjunct1], of "i + 1"] w
  show ?case unfolding upt by simp
qed

lemma holds_saveExpressions:
  "holds st X \<Longrightarrow>
     holds (saveExpressions x k i st)
       (X @ concat (map (\<lambda>j. cstr (exprName (expressions x ! j)) @
                       cstr (GetAssetPath (portrait (expressions x ! j)))) [i ..< i + k])) \<and>
     size (saveExpressions x k i st) = size st"
proof (induction k arbitrary: i st X)
  case 0
  then show ?case by simp
next
  case (Suc k)
  have upt: "[i ..< i + Suc k] = i # [Suc i ..< Suc i + k]"
    by (simp add: upt_conv_Cons)
  note w1 = holds_WriteString [OF Suc.prems, of "exprName (expressions x ! i)"]
  note w2 = holds_WriteString [OF w1 [THEN conjunct1], of "GetAssetPath (portrait (expressions x ! i))"]
  from Suc.IH [OF w2 [THEN conjunct1], of "i + 1"] w1 w2
  show ?case unfolding upt by simp
qed

lemma holds_saveObject:
  assumes "holds st X"
  shows "holds (saveObject x st) (X @ objectBytes x) \<and> size (saveObject x st) = size st"
proof -
  note w1 = holds_WriteString [OF assms, of "name x"]
  note w2 = holds_WriteFloat [OF w1 [THEN conjunct1], of "vx (position x)"]
  note w3 = holds_WriteFloat [OF w2 [THEN conjunct1], of "vy (position x)"]
  note w4 = holds_WriteFloat [OF w3 [THEN conjunct1], of "zOffset x"]
  note w5 = holds_WriteFloat [OF w4 [THEN conjunct1], of "animationFps x"]
  note w6 = holds_WriteInt [OF w5 [THEN conjunct1], of "direction x"]
  note w7 = holds_WriteString [OF w6 [THEN conjunct1], of "GetAssetPath (script x)"]
  note w8 = holds_WriteString [OF w7 [THEN conjunct1], of "GetAssetPath (collisionMap x)"]
  note w9 = holds_saveSprites [OF w8 [THEN conjunct1], of x 8 0]
  note w10 = holds_saveExpressions [OF w9 [THEN conjunct1], of x 10 0]
  show ?thesis
    unfolding saveObject_def Let_def DIRECTION_ENUM_COUNT_def objectBytes_def
    using w1 w2 w3 w4 w5 w6 w7 w8 w9 w10 by simp
qed

lemma holds_saveLoop:
  assumes "holds st X" and "i + k \<le> length objs"
  shows "holds (saveLoop k i objs st) (X @ concat (map objectBytes (take k (drop i objs)))) \<and>
         size (saveLoop k i objs st) = size st"
  using assms
proof (induction k arbitrary: i st X)
  case 0
  then show ?case by simp
next
  case (Suc k)
  note w = holds_saveObject [OF Suc.prems(1), of "objs ! i"]
  have len: "i + 1 + k \<le> length objs" using Suc.prems(2) by simp
  have "i < length objs" using Suc.prems(2) by simp
  then have "drop i objs = objs ! i # drop (Suc i) objs"
    by (simp add: Cons_nth_drop_Suc)
  then have tk: "take (Suc k) (drop i objs) = objs ! i # take k (drop (i + 1) objs)"
    by simp
  from Suc.IH [OF w [THEN conjunct1] len] w
  show ?case unfolding tk by simp
qed

lemma SaveScene_stream:
  assumes "nat (numObjects s) \<le> length (objects s)"
  shows "holds (saveLoop (nat (numObjects s)) 0 (objects s)
           (WriteInt (WriteInt (WriteBytes \<lparr>buffer = [], size = maxBytes, cursor = 0\<rparr> (take 4 SCENE_MAGIC))
              SCENE_VERSION) (numObjects s)))
         (sceneBytes s) \<and>
         size (saveLoop (nat (numObjects s)) 0 (objects s)
           (WriteInt (WriteInt (WriteBytes \<lparr>buffer = [], size = maxBytes, cursor = 0\<rparr> (take 4 SCENE_MAGIC))
              SCENE_VERSION) (numObjects s))) = maxBytes"
proof -
  have h0: "holds \<lparr>buffer = [], size = maxBytes, cursor = 0\<rparr> []"
    by (simp add: holds_def)
  note w1 = holds_WriteBytes [OF h0, of "take 4 SCENE_MAGIC"]
  note w2 = holds_WriteInt [OF w1 [THEN conjunct1], of SCENE_VERSION]
  note w3 = holds_WriteInt [OF w2 [THEN conjunct1], of "numObjects s"]
  have len: "0 + nat (numObjects s) \<le> length (objects s)" using assms by simp
  note w4 = holds_saveLoop [OF w3 [THEN conjunct1] len]
  show ?thesis
    using w1 w2 w3 w4 by (simp add: sceneBytes_def SCENE_MAGIC_def)
qed

lemma SaveScene_file:
  assumes "nat (numObjects (table g)) \<le> length (objects (table g))" and "canWrite fs path"
  shows "SaveScene fs path g =
           (True, fs\<lparr>files := (files fs)(path \<mapsto> Contents (take maxBytes (sceneBytes (table g))))\<rparr>,
            g\<lparr>lastSavedOrLoadedScene := CopyString path 256\<rparr>)"
proof -
  let ?st = "saveLoop (nat (numObjects (table g))) 0 (objects (table g))
           (WriteInt (WriteInt (WriteBytes \<lparr>buffer = [], size = maxBytes, cursor = 0\<rparr> (take 4 SCENE_MAGIC))
              SCENE_VERSION) (numObjects (table g)))"
  from SaveScene_stream [OF assms(1)]
  have b: "buffer ?st = take maxBytes (sceneBytes (table g))" and c: "cursor ?st = length (buffer ?st)"
    by (simp_all add: holds_def)
  have "take (cursor ?st) (buffer ?st) = buffer ?st"
    unfolding c by (rule take_all) (rule order_refl)
  then have "take (cursor ?st) (buffer ?st) = take maxBytes (sceneBytes (table g))"
    using b by (simp only:)
  then show ?thesis
    using assms(2) by (simp add: SaveScene_def Let_def SaveFileData_def)
qed

text \<open>
  The writer realises the format: the file \<^verbatim>\<open>SaveScene\<close> writes is the format's
  byte sequence for the table, cut at \<open>maxBytes\<close>.
\<close>

lemma LoadScene_sceneBytes:
  assumes wf: "wfScene cache s0"
    and fdata: "LoadFileData fs path = Some (sceneBytes s0)"
    and tbl: "length (objects (table g)) = 100"
  shows "fst (LoadScene cache fs path g) = Loaded \<and>
         numObjects (table (snd (LoadScene cache fs path g))) = numObjects s0 \<and>
         map serialized (take (nat (numObjects s0)) (objects (table (snd (LoadScene cache fs path g)))))
           = map serialized (take (nat (numObjects s0)) (objects s0)) \<and>
         lastSavedOrLoadedScene (snd (LoadScene cache fs path g)) = CopyString path 256"
proof -
  let ?n = "numObjects s0"
  let ?xs = "take (nat ?n) (objects s0)"
  from wf have n: "0 \<le> ?n" "?n \<le> 100" and len0: "length (objects s0) = 100"
    and wfs: "list_all (wfObject cache) ?xs"
    by (simp_all add: wfScene_def)
  have lxs: "length ?xs = nat ?n" using n len0 by simp
  let ?st = "\<lparr>buffer = sceneBytes s0, size = length (sceneBytes s0), cursor = 0\<rparr>"
  have m0: "remaining ?st = SCENE_MAGIC @ (le32 (word_of_int SCENE_VERSION) @
     (le32 (word_of_int ?n) @ (concat (map objectBytes ?xs) @ [])))"
    unfolding remaining_def by (simp add: sceneBytes_def)
  obtain st1 where r1: "ReadBytes ?st 4 = (SCENE_MAGIC, st1)"
    and m1: "remaining st1 = le32 (word_of_int SCENE_VERSION) @
     (le32 (word_of_int ?n) @ (concat (map objectBytes ?xs) @ []))"
    using ReadBytes_magic [OF m0] by blast
  have v: "- (2 ^ 31) \<le> SCENE_VERSION" "SCENE_VERSION < 2 ^ 31"
    by (simp_all add: SCENE_VERSION_def)
  obtain st2 where r2: "ReadInt st1 = (SCENE_VERSION, st2)"
    and m2: "remaining st2 = le32 (word_of_int ?n) @ (concat (map objectBytes ?xs) @ [])"
    using ReadInt_le32 [OF m1 v] by blast
  have nr: "- (2 ^ 31) \<le> ?n" "?n < 2 ^ 31" using n by simp_all
  obtain st3 where r3: "ReadInt st2 = (?n, st3)"
    and m3: "remaining st3 = concat (map objectBytes ?xs) @ []"
    using ReadInt_le32 [OF m2 nr] by blast
  let ?objs1 = "destroyLoop (nat (numObjects (table g))) 0 (objects (table g))"
  have l1: "length ?objs1 = 100" by (simp add: length_destroyLoop tbl)
  have fit: "0 + length ?xs \<le> length ?objs1" using l1 lxs n by simp
  note rt = loadLoop_roundtrip [OF m3 wfs fit]
  have mn: "min (nat ?n) (length ?objs1) = nat ?n" using l1 n by simp
  obtain objs2 st4 where r4: "loadLoop cache (nat ?n) 0 ?objs1 st3 = (objs2, st4)"
    by (cases "loadLoop cache (nat ?n) 0 ?objs1 st3") blast
  from rt r4 lxs have ser: "map serialized (take (nat ?n) objs2) = map serialized ?xs"
    by simp
  have "LoadScene cache fs path g =
          (Loaded, \<lparr>table = \<lparr>objects = objs2, numObjects = ?n\<rparr>,
                    lastSavedOrLoadedScene = CopyString path 256\<rparr>)"
    unfolding LoadScene_def using fdata r1 r2 r3 r4 mn l1 n by (simp add: Let_def)
  then show ?thesis using ser by simp
qed

subsection \<open>Rejected files\<close>

text \<open>
  Claim C2. When the file can be read and its first four bytes are not the magic, or
  the little-endian integer in its next four bytes is not the scene version,
  \<^verbatim>\<open>LoadScene\<close> leaves the table, \<open>numObjects\<close> and the last-used path as they
  were and reports the failure: not a scene file, or the wrong version it found.
\<close>

theorem LoadScene_rejects_wrong_magic_or_version:
  assumes "LoadFileData fs path = Some data"
    and "take 4 data \<noteq> SCENE_MAGIC \<or>
         sint (word_of_int (le_decode (take 4 (drop 4 data))) :: 32 word) \<noteq> SCENE_VERSION"
  shows "snd (LoadScene cache fs path g) = g \<and>
         fst (LoadScene cache fs path g) =
           (if take 4 data \<noteq> SCENE_MAGIC then NotASceneFile
            else WrongVersion (sint (word_of_int (le_decode (take 4 (drop 4 data))) :: 32 word)))"
  using assms
  by (auto simp: LoadScene_def ReadBytes_def ReadInt_def remaining_def Let_def)

theorem LoadScene_rejects_witness:
  "LoadFileData strayDisk ''notes.txt'' = Some ''NOPE, not a scene'' \<and>
   take 4 ''NOPE, not a scene'' \<noteq> SCENE_MAGIC \<and>
   snd (LoadScene vaseCache strayDisk ''notes.txt'' vaseStore) = vaseStore \<and>
   fst (LoadScene vaseCache strayDisk ''notes.txt'' vaseStore) = NotASceneFile"
proof -
  have f: "LoadFileData strayDisk ''notes.txt'' = Some ''NOPE, not a scene''"
    by (simp add: LoadFileData_def strayDisk_def)
  have m: "take 4 ''NOPE, not a scene'' \<noteq> SCENE_MAGIC \<or>
         sint (word_of_int (le_decode (take 4 (drop 4 ''NOPE, not a scene''))) :: 32 word) \<noteq> SCENE_VERSION"
    by (simp add: SCENE_MAGIC_def)
  from LoadScene_rejects_wrong_magic_or_version [OF f m, of vaseCache vaseStore] f
  show ?thesis by (simp add: SCENE_MAGIC_def)
qed

lemma LoadScene_no_data:
  "LoadFileData fs path = None \<Longrightarrow>
     snd (LoadScene cache fs path g) = g \<and>
     fst (LoadScene cache fs path g) = (if FileExists fs path then FileUnreadable else FileMissing)"
  by (simp add: LoadScene_def)

subsection \<open>Save, then load\<close>

lemma held_None: "held loader None"
  by (simp add: held_def GetAssetPath_def Acquire_def)

lemma upt_8: "[0 ..< 8] = [0, 1, 2, 3, 4, 5, 6, 7]"
  by (simp add: upt_rec)

lemma upt_10: "[0 ..< 10] = [0, 1, 2, 3, 4, 5, 6, 7, 8, 9]"
  by (simp add: upt_rec)

lemma wfObject_vaseObject: "wfObject vaseCache vaseObject"
proof -
  have h: "held (spriteAssets vaseCache) (Some vaseSprite)"
    by (simp add: held_def GetAssetPath_def Acquire_def vaseCache_def vaseSprite_def NUL_def)
  have "\<And>dir. dir < 8 \<Longrightarrow> held (spriteAssets vaseCache) ((replicate 8 None)[0 := Some vaseSprite] ! dir)"
    using h by (simp add: nth_list_update held_None)
  then show ?thesis
    unfolding wfObject_def vaseObject_def zeroObject_def
    by (simp add: cstring_def int32_def list_all_iff held_None NUL_def)
qed

lemma length_objectBytes_vase: "length (objectBytes vaseObject) = 63"
  by (simp add: objectBytes_def vaseObject_def zeroObject_def length_le32 cstr_def upt_8 upt_10
      GetAssetPath_def vaseSprite_def)

text \<open>
  Within the writer's buffer the two functions are inverse: for a well-formed scene table
  whose byte sequence has at most \<open>maxBytes\<close> = 32768 bytes, and a path that can be
  written, \<^verbatim>\<open>SaveScene\<close> succeeds and \<^verbatim>\<open>LoadScene\<close> of the same path then
  succeeds, restores the object count and restores, for every object in use, the name,
  position, zOffset, animationFps, direction, the script and collision-map paths, the
  eight sprite paths and the ten expression names and portrait paths.
\<close>

theorem SaveScene_LoadScene_roundtrip:
  assumes "wfScene cache (table g)"
    and "length (sceneBytes (table g)) \<le> maxBytes"
    and "canWrite fs path"
  shows "fst (SaveScene fs path g) \<and>
         fst (LoadScene cache (fst (snd (SaveScene fs path g))) path (snd (snd (SaveScene fs path g)))) = Loaded \<and>
         numObjects (table (snd (LoadScene cache (fst (snd (SaveScene fs path g))) path
                                   (snd (snd (SaveScene fs path g)))))) = numObjects (table g) \<and>
         map serialized (take (nat (numObjects (table g)))
           (objects (table (snd (LoadScene cache (fst (snd (SaveScene fs path g))) path
                                   (snd (snd (SaveScene fs path g))))))))
           = map serialized (take (nat (numObjects (table g))) (objects (table g)))"
proof -
  from assms(1) have len: "length (objects (table g)) = 100"
    and n: "nat (numObjects (table g)) \<le> length (objects (table g))"
    by (auto simp: wfScene_def)
  let ?fs1 = "fs\<lparr>files := (files fs)(path \<mapsto> Contents (sceneBytes (table g)))\<rparr>"
  let ?g1 = "g\<lparr>lastSavedOrLoadedScene := CopyString path 256\<rparr>"
  have sv: "SaveScene fs path g = (True, ?fs1, ?g1)"
    using SaveScene_file [OF n assms(3)] assms(2) by simp
  have ne: "sceneBytes (table g) \<noteq> []" by (simp add: sceneBytes_def SCENE_MAGIC_def)
  have fdata: "LoadFileData ?fs1 path = Some (sceneBytes (table g))"
    using ne by (simp add: LoadFileData_def)
  have tbl: "length (objects (table ?g1)) = 100" using len by simp
  from LoadScene_sceneBytes [OF assms(1) fdata tbl] sv
  show ?thesis by simp
qed

theorem SaveScene_LoadScene_roundtrip_witness:
  "wfScene vaseCache (table vaseStore) \<and> length (sceneBytes (table vaseStore)) \<le> maxBytes \<and>
   canWrite blankDisk ''scene.bin'' \<and>
   fst (SaveScene blankDisk ''scene.bin'' vaseStore) \<and>
   fst (LoadScene vaseCache (fst (snd (SaveScene blankDisk ''scene.bin'' vaseStore))) ''scene.bin''
          (snd (snd (SaveScene blankDisk ''scene.bin'' vaseStore)))) = Loaded \<and>
   map serialized (take 1 (objects (table (snd (LoadScene vaseCache
          (fst (snd (SaveScene blankDisk ''scene.bin'' vaseStore))) ''scene.bin''
          (snd (snd (SaveScene blankDisk ''scene.bin'' vaseStore))))))))
     = [serialized vaseObject]"
proof -
  have wf: "wfScene vaseCache (table vaseStore)"
    by (simp add: wfScene_def vaseStore_def wfObject_vaseObject)
  have fits: "length (sceneBytes (table vaseStore)) \<le> maxBytes"
    by (simp add: sceneBytes_def vaseStore_def length_objectBytes_vase length_le32 SCENE_MAGIC_def maxBytes_def)
  have w: "canWrite blankDisk ''scene.bin''" by (simp add: blankDisk_def)
  have n: "nat (numObjects (table vaseStore)) = 1" "take 1 (objects (table vaseStore)) = [vaseObject]"
    by (simp_all add: vaseStore_def)
  from SaveScene_LoadScene_roundtrip [OF wf fits w] wf fits w
  show ?thesis unfolding n by simp
qed

subsection \<open>A full table does not fit\<close>

text \<open>
  Every string the loader returns is read from the file, so the names it loads are
  together no longer than the file.
\<close>

lemma nameBytes_serialized:
  assumes "serialized a = serialized b"
  shows "nameBytes a = nameBytes b"
proof -
  from assms have n: "name a = name b"
    and e: "map (\<lambda>j. (exprName (expressions a ! j), GetAssetPath (portrait (expressions a ! j)))) [0 ..< 10]
          = map (\<lambda>j. (exprName (expressions b ! j), GetAssetPath (portrait (expressions b ! j)))) [0 ..< 10]"
    by (simp_all add: serialized_def)
  from e have "map fst (map (\<lambda>j. (exprName (expressions a ! j), GetAssetPath (portrait (expressions a ! j)))) [0 ..< 10])
          = map fst (map (\<lambda>j. (exprName (expressions b ! j), GetAssetPath (portrait (expressions b ! j)))) [0 ..< 10])"
    by (simp only:)
  then have "map (\<lambda>j. exprName (expressions a ! j)) [0 ..< 10] = map (\<lambda>j. exprName (expressions b ! j)) [0 ..< 10]"
    by (simp add: comp_def)
  then have "map length (map (\<lambda>j. exprName (expressions a ! j)) [0 ..< 10])
           = map length (map (\<lambda>j. exprName (expressions b ! j)) [0 ..< 10])"
    by (simp only:)
  then have "map (\<lambda>j. length (exprName (expressions a ! j))) [0 ..< 10]
           = map (\<lambda>j. length (exprName (expressions b ! j))) [0 ..< 10]"
    by (simp add: comp_def)
  with n show ?thesis by (simp only: nameBytes_def)
qed

lemma map_by_index: "map (\<lambda>j. f (xs ! j)) [0 ..< length xs] = map f xs"
  by (rule nth_equalityI) simp_all

lemma ReadString_consumes:
  "length (fst (ReadString st)) + length (remaining (snd (ReadString st))) \<le> length (remaining st)"
proof -
  have "length (takeWhile (\<lambda>c. c \<noteq> NUL) (remaining st)) \<le> length (remaining st)"
    by (rule length_takeWhile_le)
  moreover have "snd (ReadString st) =
      st\<lparr>cursor := cursor st + (length (takeWhile (\<lambda>c. c \<noteq> NUL) (remaining st)) + 1)\<rparr>"
    by (simp add: ReadString_def Let_def)
  then have "length (remaining (snd (ReadString st))) =
      length (remaining st) - (length (takeWhile (\<lambda>c. c \<noteq> NUL) (remaining st)) + 1)"
    by (simp only: remaining_advance length_drop)
  moreover have "fst (ReadString st) = takeWhile (\<lambda>c. c \<noteq> NUL) (remaining st)"
    by (simp add: ReadString_def Let_def)
  ultimately show ?thesis by simp
qed

lemma ReadFloat_consumes: "length (remaining (snd (ReadFloat st))) \<le> length (remaining st)"
  by (simp add: ReadFloat_def remaining_advance)

lemma ReadInt_consumes: "length (remaining (snd (ReadInt st))) \<le> length (remaining st)"
  by (simp add: ReadInt_def remaining_advance)

lemma loadSprites_consumes: "length (remaining (snd (loadSprites cache k st))) \<le> length (remaining st)"
proof (induction k arbitrary: st)
  case 0
  then show ?case by simp
next
  case (Suc k)
  have "length (remaining (snd (loadSprites cache k (snd (ReadString st)))))
        \<le> length (remaining (snd (ReadString st)))"
    by (rule Suc.IH)
  also have "\<dots> \<le> length (remaining st)"
    using ReadString_consumes [of st] by simp
  finally show ?case by (simp add: split_beta Let_def)
qed

lemma loadExpressions_consumes:
  "length (fst (loadExpressions cache k st)) = k \<and>
   sum_list (map (\<lambda>e. length (exprName e)) (fst (loadExpressions cache k st))) +
     length (remaining (snd (loadExpressions cache k st))) \<le> length (remaining st)"
proof (induction k arbitrary: st)
  case 0
  then show ?case by simp
next
  case (Suc k)
  let ?st1 = "snd (ReadString st)"
  let ?st2 = "snd (ReadString ?st1)"
  note ih = Suc.IH [of ?st2]
  have c: "length (CopyString (fst (ReadString st)) 32) \<le> length (fst (ReadString st))"
    by (simp add: CopyString_def)
  from ReadString_consumes [of st] ReadString_consumes [of ?st1] ih c
  show ?case by (simp add: split_beta Let_def)
qed

lemma loadObject_consumes:
  "nameBytes (fst (loadObject cache old st)) + length (remaining (snd (loadObject cache old st)))
     \<le> length (remaining st)"
proof -
  let ?st1 = "snd (ReadString st)"
  let ?st2 = "snd (ReadFloat ?st1)"
  let ?st3 = "snd (ReadFloat ?st2)"
  let ?st4 = "snd (ReadFloat ?st3)"
  let ?st5 = "snd (ReadFloat ?st4)"
  let ?st6 = "snd (ReadInt ?st5)"
  let ?st7 = "snd (ReadString ?st6)"
  let ?st8 = "snd (ReadString ?st7)"
  let ?st9 = "snd (loadSprites cache 8 ?st8)"
  let ?ex = "loadExpressions cache 10 ?st9"
  have o: "name (fst (loadObject cache old st)) = CopyString (fst (ReadString st)) 50"
    "expressions (fst (loadObject cache old st)) = fst ?ex"
    "snd (loadObject cache old st) = snd ?ex"
    by (simp_all add: loadObject_def split_beta Let_def DIRECTION_ENUM_COUNT_def)
  have len: "length (fst ?ex) = 10"
    using loadExpressions_consumes [of cache 10 ?st9] by simp
  have "map (\<lambda>j. length (exprName (fst ?ex ! j))) [0 ..< 10] = map (\<lambda>e. length (exprName e)) (fst ?ex)"
    using map_by_index [of "\<lambda>e. length (exprName e)" "fst ?ex"] len by simp
  then have nb: "nameBytes (fst (loadObject cache old st)) =
      length (CopyString (fst (ReadString st)) 50) + sum_list (map (\<lambda>e. length (exprName e)) (fst ?ex))"
    by (simp add: nameBytes_def o)
  have c: "length (CopyString (fst (ReadString st)) 50) \<le> length (fst (ReadString st))"
    by (simp add: CopyString_def)
  from ReadString_consumes [of st] ReadFloat_consumes [of ?st1] ReadFloat_consumes [of ?st2]
    ReadFloat_consumes [of ?st3] ReadFloat_consumes [of ?st4] ReadInt_consumes [of ?st5]
    ReadString_consumes [of ?st6] ReadString_consumes [of ?st7] loadSprites_consumes [of cache 8 ?st8]
    loadExpressions_consumes [of cache 10 ?st9] c
  show ?thesis unfolding nb o by linarith
qed

lemma loadLoop_consumes:
  assumes "i + k \<le> length objs"
  shows "sum_list (map nameBytes (take k (drop i (fst (loadLoop cache k i objs st))))) +
           length (remaining (snd (loadLoop cache k i objs st))) \<le> length (remaining st)"
  using assms
proof (induction k arbitrary: i objs st)
  case 0
  then show ?case by simp
next
  case (Suc k)
  let ?o = "fst (loadObject cache (objs ! i) st)" and ?st1 = "snd (loadObject cache (objs ! i) st)"
  let ?res = "loadLoop cache k (i + 1) (objs[i := ?o]) ?st1"
  have step: "loadLoop cache (Suc k) i objs st = ?res"
    by (simp add: split_beta)
  have len: "i + 1 + k \<le> length (objs[i := ?o])" using Suc.prems by simp
  note ih = Suc.IH [OF len, of ?st1]
  have lres: "length (fst ?res) = length objs" by (simp add: loadLoop_length)
  have ati: "fst ?res ! i = ?o"
    using loadLoop_below [of i "i + 1" cache k "objs[i := ?o]" ?st1] Suc.prems by simp
  have "i < length (fst ?res)" using lres Suc.prems by simp
  then have "drop i (fst ?res) = fst ?res ! i # drop (Suc i) (fst ?res)"
    by (simp add: Cons_nth_drop_Suc)
  then have tk: "take (Suc k) (drop i (fst ?res)) = ?o # take k (drop (i + 1) (fst ?res))"
    using ati by simp
  from ih loadObject_consumes [of cache "objs ! i" st]
  show ?case unfolding step tk by simp
qed

lemma nameBytes_crowdedObject: "nameBytes crowdedObject = 359"
proof -
  have "map (\<lambda>j. length (exprName (replicate 10 \<lparr>exprName = replicate 31 CHR ''e'', portrait = None\<rparr> ! j)))
          [0 ..< 10] = map (\<lambda>j. 31) [0 ..< 10]"
    by (rule map_cong) simp_all
  moreover have "name crowdedObject = replicate 49 CHR ''n''"
    and "expressions crowdedObject = replicate 10 \<lparr>exprName = replicate 31 CHR ''e'', portrait = None\<rparr>"
    by (simp_all add: crowdedObject_def)
  ultimately have "nameBytes crowdedObject = length (replicate 49 CHR ''n'') + sum_list (map (\<lambda>j. 31) [0 ..< 10])"
    by (simp only: nameBytes_def)
  then show ?thesis by (simp add: sum_list_triv)
qed

lemma wfObject_crowdedObject: "wfObject cache crowdedObject"
proof -
  have n: "NUL \<noteq> CHR ''n''" "NUL \<noteq> CHR ''e''" by (simp_all add: NUL_def)
  show ?thesis
    unfolding wfObject_def crowdedObject_def zeroObject_def
    using n by (simp add: cstring_def int32_def list_all_iff held_None)
qed

lemma wfScene_crowded: "wfScene cache (table crowdedStore)"
  by (simp add: wfScene_def crowdedStore_def list_all_iff wfObject_crowdedObject)

lemma ReadBytes_consumes: "length (remaining (snd (ReadBytes st n))) \<le> length (remaining st)"
  by (simp add: ReadBytes_def remaining_advance)

lemma serialized_nameBytes:
  assumes "map serialized xs = map serialized ys"
  shows "map nameBytes xs = map nameBytes ys"
proof (rule nth_equalityI)
  from assms have "length (map serialized xs) = length (map serialized ys)" by (simp only:)
  then show l: "length (map nameBytes xs) = length (map nameBytes ys)" by simp
  fix i assume "i < length (map nameBytes xs)"
  then have i: "i < length xs" "i < length ys" using l by simp_all
  have "map serialized xs ! i = map serialized ys ! i" using assms by (simp only:)
  then have "serialized (xs ! i) = serialized (ys ! i)" using i by (simp only: nth_map)
  then have "nameBytes (xs ! i) = nameBytes (ys ! i)" by (rule nameBytes_serialized)
  then show "map nameBytes xs ! i = map nameBytes ys ! i" using i by (simp only: nth_map)
qed

lemma nameBytes_crowdedStore:
  "sum_list (map nameBytes (take 100 (objects (table crowdedStore)))) = 35900"
  by (simp add: crowdedStore_def nameBytes_crowdedObject sum_list_replicate)

lemma length_objectBytes_crowded: "length (objectBytes crowdedObject) = 410"
  by (simp add: objectBytes_def crowdedObject_def zeroObject_def length_le32 cstr_def upt_8 upt_10
      GetAssetPath_def)

lemma length_sceneBytes_crowded: "length (sceneBytes (table crowdedStore)) = 41012"
  by (simp add: sceneBytes_def crowdedStore_def length_le32 SCENE_MAGIC_def length_concat
      length_objectBytes_crowded sum_list_replicate)

text \<open>
  Claim C1. The spec asks that, for every scene table within capacity (at most 100
  objects, each with at most 10 expressions), \<^verbatim>\<open>SaveScene\<close> to a path followed by
  \<^verbatim>\<open>LoadScene\<close> from that path reproduces the object count and every serialised field
  of every object. The code does not: \<^verbatim>\<open>SaveScene\<close> serialises into a buffer of
  \<open>maxBytes\<close> = 32 * 1024 bytes, and a table within capacity can need more. The table
  \<open>crowdedStore\<close> has 100 objects with names of 49 characters and ten expression names
  of 31 characters each; its names alone are 35900 bytes.

  Whatever \<^verbatim>\<open>SaveScene\<close> does at the end of its buffer, a file that comes out of that
  buffer has at most \<open>maxBytes\<close> bytes, and from no such file does \<^verbatim>\<open>LoadScene\<close>
  succeed with 100 objects whose serialised fields are those of \<open>crowdedStore\<close>: every
  name the loader stores was read from the file.
\<close>

theorem LoadScene_full_table_needs_larger_file:
  assumes fdata: "LoadFileData fs path = Some data"
    and small: "length data \<le> maxBytes"
  shows "\<not> (fst (LoadScene cache fs path g) = Loaded \<and>
            numObjects (table (snd (LoadScene cache fs path g))) = 100 \<and>
            map serialized (take 100 (objects (table (snd (LoadScene cache fs path g)))))
              = map serialized (take 100 (objects (table crowdedStore))))"
proof
  assume a: "fst (LoadScene cache fs path g) = Loaded \<and>
            numObjects (table (snd (LoadScene cache fs path g))) = 100 \<and>
            map serialized (take 100 (objects (table (snd (LoadScene cache fs path g)))))
              = map serialized (take 100 (objects (table crowdedStore)))"
  let ?st = "\<lparr>buffer = data, size = length data, cursor = 0\<rparr>"
  let ?st1 = "snd (ReadBytes ?st 4)"
  let ?st2 = "snd (ReadInt ?st1)"
  let ?st3 = "snd (ReadInt ?st2)"
  let ?n = "fst (ReadInt ?st2)"
  let ?objs1 = "destroyLoop (nat (numObjects (table g))) 0 (objects (table g))"
  let ?res = "loadLoop cache (min (nat ?n) (length ?objs1)) 0 ?objs1 ?st3"
  have ld: "LoadScene cache fs path g =
      (if fst (ReadBytes ?st 4) \<noteq> SCENE_MAGIC then (NotASceneFile, g)
       else if fst (ReadInt ?st1) \<noteq> SCENE_VERSION then (WrongVersion (fst (ReadInt ?st1)), g)
       else if nat ?n > length ?objs1
         then (WritesPastTable, g\<lparr>table := \<lparr>objects = fst ?res, numObjects = ?n\<rparr>\<rparr>)
         else (Loaded, \<lparr>table = \<lparr>objects = fst ?res, numObjects = ?n\<rparr>,
                        lastSavedOrLoadedScene = CopyString path 256\<rparr>))"
    unfolding LoadScene_def using fdata by (simp add: Let_def split_beta)
  from a have ok: "fst (LoadScene cache fs path g) = Loaded" by simp
  have c1: "fst (ReadBytes ?st 4) = SCENE_MAGIC"
    using ok unfolding ld by (simp split: if_splits)
  have c2: "fst (ReadInt ?st1) = SCENE_VERSION"
    using ok unfolding ld by (simp add: c1 split: if_splits)
  have c3: "\<not> nat ?n > length ?objs1"
    using ok unfolding ld by (simp add: c1 c2 split: if_splits)
  have ld': "LoadScene cache fs path g =
      (Loaded, \<lparr>table = \<lparr>objects = fst ?res, numObjects = ?n\<rparr>,
                 lastSavedOrLoadedScene = CopyString path 256\<rparr>)"
    unfolding ld using c1 c2 c3 by simp
  from a have n: "?n = 100" unfolding ld' by simp
  have k: "min (nat ?n) (length ?objs1) = 100" using n c3 by simp
  have fit: "0 + 100 \<le> length ?objs1" using n c3 by simp
  let ?loaded = "fst (loadLoop cache 100 0 ?objs1 ?st3)"
  from a have eq: "map serialized (take 100 ?loaded) = map serialized (take 100 (objects (table crowdedStore)))"
    unfolding ld' k by simp
  from loadLoop_consumes [OF fit, of cache ?st3]
  have "sum_list (map nameBytes (take 100 ?loaded)) \<le> length (remaining ?st3)" by simp
  also have "\<dots> \<le> length (remaining ?st2)" by (rule ReadInt_consumes)
  also have "\<dots> \<le> length (remaining ?st1)" by (rule ReadInt_consumes)
  also have "\<dots> \<le> length (remaining ?st)" by (rule ReadBytes_consumes)
  also have "\<dots> \<le> length data" by (simp add: remaining_def)
  also have "\<dots> \<le> 32768" using small by (simp add: maxBytes_def)
  finally have "sum_list (map nameBytes (take 100 ?loaded)) \<le> 32768" .
  moreover have "map nameBytes (take 100 ?loaded) = map nameBytes (take 100 (objects (table crowdedStore)))"
    using eq by (rule serialized_nameBytes)
  ultimately show False using nameBytes_crowdedStore by simp
qed

text \<open>
  The failing input. \<open>crowdedStore\<close> is well-formed and within capacity, and its byte
  sequence has 41012 bytes. \<^verbatim>\<open>SaveScene\<close> to \<^verbatim>\<open>scene.bin\<close> on a writable disk
  reports success, and \<^verbatim>\<open>LoadScene\<close> of \<^verbatim>\<open>scene.bin\<close> afterwards does not give the
  saved table back.
\<close>

theorem SaveScene_LoadScene_full_table_counterexample:
  "wfScene noAssets (table crowdedStore) \<and>
   numObjects (table crowdedStore) = 100 \<and>
   length (sceneBytes (table crowdedStore)) = 41012 \<and>
   fst (SaveScene blankDisk ''scene.bin'' crowdedStore) \<and>
   \<not> (fst (LoadScene noAssets (fst (snd (SaveScene blankDisk ''scene.bin'' crowdedStore))) ''scene.bin''
             (snd (snd (SaveScene blankDisk ''scene.bin'' crowdedStore)))) = Loaded \<and>
      numObjects (table (snd (LoadScene noAssets
         (fst (snd (SaveScene blankDisk ''scene.bin'' crowdedStore))) ''scene.bin''
         (snd (snd (SaveScene blankDisk ''scene.bin'' crowdedStore)))))) = 100 \<and>
      map serialized (take 100 (objects (table (snd (LoadScene noAssets
         (fst (snd (SaveScene blankDisk ''scene.bin'' crowdedStore))) ''scene.bin''
         (snd (snd (SaveScene blankDisk ''scene.bin'' crowdedStore))))))))
       = map serialized (take 100 (objects (table crowdedStore))))"
proof -
  let ?g = crowdedStore and ?p = "''scene.bin''"
  let ?written = "take maxBytes (sceneBytes (table ?g))"
  let ?fs1 = "blankDisk\<lparr>files := (files blankDisk)(?p \<mapsto> Contents ?written)\<rparr>"
  let ?g1 = "?g\<lparr>lastSavedOrLoadedScene := CopyString ?p 256\<rparr>"
  have cap: "nat (numObjects (table ?g)) \<le> length (objects (table ?g))"
    by (simp add: crowdedStore_def)
  have w: "canWrite blankDisk ?p" by (simp add: blankDisk_def)
  have sv: "SaveScene blankDisk ?p ?g = (True, ?fs1, ?g1)"
    by (rule SaveScene_file [OF cap w])
  have "?written \<noteq> []"
    using length_sceneBytes_crowded by (auto simp: maxBytes_def)
  then have fdata: "LoadFileData ?fs1 ?p = Some ?written"
    by (simp add: LoadFileData_def)
  have small: "length ?written \<le> maxBytes" by simp
  have n: "numObjects (table crowdedStore) = 100" by (simp add: crowdedStore_def)
  from LoadScene_full_table_needs_larger_file [OF fdata small, of noAssets ?g1]
  show ?thesis
    using wfScene_crowded [of noAssets] length_sceneBytes_crowded n unfolding sv by simp
qed

end
